theory Spec2Isabelle
  imports Complex_Main "HOL-Library.Sublist" "HOL-Library.Char_ord" "HOL-Library.List_Lexorder"
begin

section \<open>Python strings\<close>

text \<open>
  Strings are ASCII text: a \<^typ>\<open>char\<close> stands for one code point below 128, and a code
  of 128 or more is read as a symbol that has no case, is no digit, no letter and no
  white space. \<open>str.lower\<close>, \<open>str.strip\<close> and the \<open>in\<close> test on strings are
  written out on that alphabet.
\<close>

definition is_space :: "char \<Rightarrow> bool" where
  "is_space c = (let n = (of_char c :: nat) in (9 \<le> n \<and> n \<le> 13) \<or> (28 \<le> n \<and> n \<le> 32))"

definition is_digit :: "char \<Rightarrow> bool" where
  "is_digit c = (let n = (of_char c :: nat) in 48 \<le> n \<and> n \<le> 57)"

definition is_slug_char :: "char \<Rightarrow> bool" where
  "is_slug_char c = (let n = (of_char c :: nat) in (97 \<le> n \<and> n \<le> 122) \<or> (48 \<le> n \<and> n \<le> 57))"

definition lower_char :: "char \<Rightarrow> char" where
  "lower_char c = (let n = (of_char c :: nat) in if 65 \<le> n \<and> n \<le> 90 then char_of (n + 32) else c)"

definition lower :: "string \<Rightarrow> string" where
  "lower s = map lower_char s"

definition strip_chars :: "(char \<Rightarrow> bool) \<Rightarrow> string \<Rightarrow> string" where
  "strip_chars P s = rev (dropWhile P (rev (dropWhile P s)))"

definition strip :: "string \<Rightarrow> string" where
  "strip s = strip_chars is_space s"

text \<open>\<open>sub in s\<close> on two strings: \<open>sub\<close> occurs in \<open>s\<close> as a contiguous block.\<close>

fun contains :: "string \<Rightarrow> string \<Rightarrow> bool" where
  "contains sub [] = (sub = [])"
| "contains sub (c # cs) = (prefix sub (c # cs) \<or> contains sub cs)"

text \<open>
  \<open>re.sub(CLASS+, "-", s)\<close>: every maximal run of characters of the class becomes one
  hyphen.
\<close>

function sub_runs :: "(char \<Rightarrow> bool) \<Rightarrow> string \<Rightarrow> string" where
  "sub_runs P [] = []"
| "sub_runs P (c # cs) =
     (if P c then CHR ''-'' # sub_runs P (dropWhile P cs) else c # sub_runs P cs)"
  by pat_completeness auto
termination
  by (relation "measure (\<lambda>(P, s). length s)") (auto simp: le_imp_less_Suc length_dropWhile_le)

definition is_hyphen :: "char \<Rightarrow> bool" where
  "is_hyphen c = (c = CHR ''-'')"

text \<open>
  \<^verbatim>\<open>
  def normalise_text(value: str) -> str:
      value = value.strip().lower()
      value = re.sub(r"[^a-z0-9]+", "-", value)
      return re.sub(r"-+", "-", value).strip("-")
  \<close>
\<close>

definition normalise_text :: "string \<Rightarrow> string" where
  "normalise_text value =
     strip_chars is_hyphen
       (sub_runs is_hyphen (sub_runs (\<lambda>c. \<not> is_slug_char c) (lower (strip value))))"

section \<open>Python values and integer conversion\<close>

text \<open>
  A float is its value together with the text \<open>str\<close> gives for it: the shortest decimal
  that reads back as the same double is not computed here, a float carries it.
\<close>

datatype fvalue = Finite rat | NaN | PosInf | NegInf

datatype pyfloat = PyFloat (fval: fvalue) (frepr: string)

datatype pyval =
    PNone
  | PBool bool
  | PInt int
  | PFloat pyfloat
  | PStr string
  | PList "pyval list"
  | PDict "(string \<times> pyval) list"

datatype pyerr = TypeError | ValueError | OverflowError | ParseException

definition trunc :: "rat \<Rightarrow> int" where
  "trunc q = (if 0 \<le> q then \<lfloor>q\<rfloor> else \<lceil>q\<rceil>)"

definition digit_val :: "char \<Rightarrow> nat" where
  "digit_val c = of_char c - 48"

text \<open>
  The digits of \<open>int(str)\<close> after the first one: a digit, or one underscore followed by
  a digit.
\<close>

fun parse_digits :: "nat \<Rightarrow> string \<Rightarrow> nat option" where
  "parse_digits acc [] = Some acc"
| "parse_digits acc [c] = (if is_digit c then Some (10 * acc + digit_val c) else None)"
| "parse_digits acc (c # d # ds) =
     (if is_digit c then parse_digits (10 * acc + digit_val c) (d # ds)
      else if c = CHR ''_'' \<and> is_digit d then parse_digits (10 * acc + digit_val d) ds
      else None)"

definition py_digits :: "string \<Rightarrow> nat option" where
  "py_digits s =
     (case s of [] \<Rightarrow> None
      | c # cs \<Rightarrow> if is_digit c then parse_digits (digit_val c) cs else None)"

text \<open>
  \<open>int(s)\<close> on a string, base 10: \<open>None\<close> where Python raises ValueError. The
  white space \<open>int\<close> accepts around the number is tab, line feed, vertical tab, form
  feed, carriage return and space, a smaller class than that of \<open>str.strip\<close>; and a
  number of more than 4300 digits is refused.
\<close>

definition is_int_space :: "char \<Rightarrow> bool" where
  "is_int_space c = (let n = (of_char c :: nat) in (9 \<le> n \<and> n \<le> 13) \<or> n = 32)"

definition int_of_string :: "string \<Rightarrow> int option" where
  "int_of_string s =
     (if 4300 < length (filter is_digit s) then None
      else case strip_chars is_int_space s of [] \<Rightarrow> None
      | c # cs \<Rightarrow>
          if c = CHR ''+'' then map_option int (py_digits cs)
          else if c = CHR ''-'' then map_option (\<lambda>n. - int n) (py_digits cs)
          else map_option int (py_digits (c # cs)))"

text \<open>\<open>int(value)\<close>, with the exception it raises.\<close>

fun py_int :: "pyval \<Rightarrow> pyerr + int" where
  "py_int PNone = Inl TypeError"
| "py_int (PBool b) = Inr (if b then 1 else 0)"
| "py_int (PInt i) = Inr i"
| "py_int (PFloat f) =
     (case fval f of
        Finite q \<Rightarrow> Inr (trunc q)
      | NaN \<Rightarrow> Inl ValueError
      | PosInf \<Rightarrow> Inl OverflowError
      | NegInf \<Rightarrow> Inl OverflowError)"
| "py_int (PStr s) = (case int_of_string s of Some i \<Rightarrow> Inr i | None \<Rightarrow> Inl ValueError)"
| "py_int (PList xs) = Inl TypeError"
| "py_int (PDict kvs) = Inl TypeError"

definition is_nan :: "pyval \<Rightarrow> bool" where
  "is_nan v = (case v of PFloat f \<Rightarrow> fval f = NaN | _ \<Rightarrow> False)"

text \<open>
  \<^verbatim>\<open>
  def to_optional_int(value) -> Optional[int]:
      if value is None or (isinstance(value, float) and math.isnan(value)):
          return None
      try:
          return int(value)
      except (TypeError, ValueError):
          return None
  \<close>
  An exception the \<open>except\<close> clause does not name leaves the function.
\<close>

definition to_optional_int :: "pyval \<Rightarrow> pyerr + int option" where
  "to_optional_int v =
     (if v = PNone \<or> is_nan v then Inr None
      else case py_int v of
             Inr i \<Rightarrow> Inr (Some i)
           | Inl TypeError \<Rightarrow> Inr None
           | Inl ValueError \<Rightarrow> Inr None
           | Inl e \<Rightarrow> Inl e)"

section \<open>The fact store\<close>

text \<open>
  An RDF term is an IRI, a blank node or a literal. A literal is a plain string, an
  \<open>xsd:integer\<close> or an \<open>xsd:float\<close>, held by its value. The store is the list of its
  triples in the order they were added; the library enumerates matches of a pattern in
  that order.
\<close>

datatype lit = LStr string | LInt int | LFloat pyfloat

datatype node = URIRef string | BNode string | Literal lit

type_synonym triple = "node \<times> node \<times> node"

type_synonym graph = "triple list"

definition digit_char :: "nat \<Rightarrow> char" where
  "digit_char n = char_of (48 + n)"

function show_nat :: "nat \<Rightarrow> string" where
  "show_nat n = (if n < 10 then [digit_char n] else show_nat (n div 10) @ [digit_char (n mod 10)])"
  by pat_completeness auto
termination
  by (relation "measure (\<lambda>n. n)") auto

definition show_int :: "int \<Rightarrow> string" where
  "show_int i = (if i < 0 then CHR ''-'' # show_nat (nat (- i)) else show_nat (nat i))"

text \<open>\<open>str(term)\<close>: the IRI, the blank node's identifier, or the literal's lexical form.\<close>

fun node_str :: "node \<Rightarrow> string" where
  "node_str (URIRef u) = u"
| "node_str (BNode b) = b"
| "node_str (Literal (LStr s)) = s"
| "node_str (Literal (LInt i)) = show_int i"
| "node_str (Literal (LFloat f)) = frepr f"

text \<open>
  The truth value of a term in an \<open>if\<close>: an IRI or blank node is a string, a literal
  answers with the truth value of its Python value.
\<close>

fun truthy :: "node \<Rightarrow> bool" where
  "truthy (URIRef u) = (u \<noteq> [])"
| "truthy (BNode b) = (b \<noteq> [])"
| "truthy (Literal (LStr s)) = (s \<noteq> [])"
| "truthy (Literal (LInt i)) = (i \<noteq> 0)"
| "truthy (Literal (LFloat f)) = (fval f \<noteq> Finite 0)"

definition graph_add :: "graph \<Rightarrow> triple \<Rightarrow> graph" where
  "graph_add g t = (if t \<in> set g then g else g @ [t])"

definition graph_add_all :: "graph \<Rightarrow> triple list \<Rightarrow> graph" where
  "graph_add_all g ts = foldl graph_add g ts"

definition objects :: "graph \<Rightarrow> node \<Rightarrow> node \<Rightarrow> node list" where
  "objects g s p = map (\<lambda>(s', p', ob). ob) (filter (\<lambda>(s', p', ob). s' = s \<and> p' = p) g)"

definition subjects :: "graph \<Rightarrow> node \<Rightarrow> node \<Rightarrow> node list" where
  "subjects g p ob = map (\<lambda>(s', p', ob'). s') (filter (\<lambda>(s', p', ob'). p' = p \<and> ob' = ob) g)"

text \<open>\<open>graph.value(subject, predicate)\<close>: the first object found, or \<open>None\<close>.\<close>

definition graph_value :: "graph \<Rightarrow> node \<Rightarrow> node \<Rightarrow> node option" where
  "graph_value g s p = (case objects g s p of [] \<Rightarrow> None | ob # _ \<Rightarrow> Some ob)"

subsection \<open>Vocabulary\<close>

definition BASE_URI :: string where
  "BASE_URI = ''http://example.org/recipes#''"

definition REC :: "string \<Rightarrow> node" where
  "REC x = URIRef (BASE_URI @ x)"

definition SCHEMA :: "string \<Rightarrow> node" where
  "SCHEMA x = URIRef (''http://schema.org/'' @ x)"

definition RDF :: "string \<Rightarrow> node" where
  "RDF x = URIRef (''http://www.w3.org/1999/02/22-rdf-syntax-ns#'' @ x)"

definition RDFS :: "string \<Rightarrow> node" where
  "RDFS x = URIRef (''http://www.w3.org/2000/01/rdf-schema#'' @ x)"

definition OWL :: "string \<Rightarrow> node" where
  "OWL x = URIRef (''http://www.w3.org/2002/07/owl#'' @ x)"

definition rdf_type :: node where "rdf_type = RDF ''type''"
definition rdfs_label :: node where "rdfs_label = RDFS ''label''"
definition rdfs_subClassOf :: node where "rdfs_subClassOf = RDFS ''subClassOf''"

definition rec_Recipe :: node where "rec_Recipe = REC ''Recipe''"
definition rec_Ingredient :: node where "rec_Ingredient = REC ''Ingredient''"
definition rec_Cuisine :: node where "rec_Cuisine = REC ''Cuisine''"
definition rec_AnimalProduct :: node where "rec_AnimalProduct = REC ''AnimalProduct''"
definition rec_GlutenIngredient :: node where "rec_GlutenIngredient = REC ''GlutenIngredient''"
definition rec_hasIngredient :: node where "rec_hasIngredient = REC ''hasIngredient''"
definition rec_hasCuisine :: node where "rec_hasCuisine = REC ''hasCuisine''"
definition rec_hasDiet :: node where "rec_hasDiet = REC ''hasDiet''"
definition rec_avoidsIngredientCategory :: node where
  "rec_avoidsIngredientCategory = REC ''avoidsIngredientCategory''"
definition rec_hasPrepTime :: node where "rec_hasPrepTime = REC ''hasPrepTime''"
definition rec_hasCookTime :: node where "rec_hasCookTime = REC ''hasCookTime''"
definition rec_hasTotalTime :: node where "rec_hasTotalTime = REC ''hasTotalTime''"
definition rec_hasServings :: node where "rec_hasServings = REC ''hasServings''"
definition rec_hasRating :: node where "rec_hasRating = REC ''hasRating''"
definition rec_Vegan :: node where "rec_Vegan = REC ''Vegan''"
definition rec_Vegetarian :: node where "rec_Vegetarian = REC ''Vegetarian''"
definition rec_GlutenFree :: node where "rec_GlutenFree = REC ''GlutenFree''"
definition schema_url :: node where "schema_url = SCHEMA ''url''"
definition schema_step :: node where "schema_step = SCHEMA ''step''"
definition schema_position :: node where "schema_position = SCHEMA ''position''"
definition schema_HowToStep :: node where "schema_HowToStep = SCHEMA ''HowToStep''"

section \<open>The graph builder\<close>

record RecipeRecord =
  name :: string
  prep_time :: "int option"
  cook_time :: "int option"
  total_time :: "int option"
  servings :: "int option"
  ingredients :: "string list"
  directions :: "string list"
  rating :: "pyfloat option"
  url :: "string option"
  cuisine_path :: "string option"

definition ANIMAL_PRODUCTS :: "string list" where
  "ANIMAL_PRODUCTS =
     [''anchovy'', ''bacon'', ''beef'', ''butter'', ''chicken'', ''egg'', ''fish'', ''gelatin'',
      ''honey'', ''lamb'', ''milk'', ''pork'', ''shrimp'', ''turkey'', ''yogurt'', ''parmesan'',
      ''cream'', ''cheese'']"

definition GLUTEN_GRAINS :: "string list" where
  "GLUTEN_GRAINS =
     [''wheat'', ''barley'', ''rye'', ''spelt'', ''farro'', ''semolina'', ''flour'', ''spaghetti'',
      ''pasta'', ''bread'']"

definition MEAT_TOKENS :: "string list" where
  "MEAT_TOKENS = [''chicken'', ''beef'', ''pork'', ''lamb'', ''fish'', ''shrimp'', ''turkey'']"

text \<open>\<open>any(token in text for token in tokens)\<close>\<close>

definition any_token :: "string list \<Rightarrow> string \<Rightarrow> bool" where
  "any_token tokens text = list_ex (\<lambda>token. contains token text) tokens"


definition ingredient_uri_of :: "string \<Rightarrow> node" where
  "ingredient_uri_of ingredient_label = REC (''ingredient-'' @ normalise_text ingredient_label)"

text \<open>
  \<^verbatim>\<open>
  def annotate_ingredient(graph, ingredient_label):
      ingredient_id = normalise_text(ingredient_label)
      ingredient_uri = REC[f"ingredient-{ingredient_id}"]
      if (ingredient_uri, RDF.type, REC.Ingredient) not in graph:
          graph.add((ingredient_uri, RDF.type, REC.Ingredient))
          graph.add((ingredient_uri, RDFS.label, Literal(ingredient_label)))
          lowered = ingredient_label.lower()
          if any(token in lowered for token in ANIMAL_PRODUCTS):
              graph.add((ingredient_uri, RDF.type, REC.AnimalProduct))
          if any(token in lowered for token in GLUTEN_GRAINS):
              graph.add((ingredient_uri, RDF.type, REC.GlutenIngredient))
      return ingredient_uri
  \<close>
  The graph is returned with the IRI.
\<close>

definition annotate_ingredient :: "graph \<Rightarrow> string \<Rightarrow> node \<times> graph" where
  "annotate_ingredient g ingredient_label =
     (let ingredient_uri = ingredient_uri_of ingredient_label in
      if (ingredient_uri, rdf_type, rec_Ingredient) \<notin> set g then
        (let g1 = graph_add g (ingredient_uri, rdf_type, rec_Ingredient);
             g2 = graph_add g1 (ingredient_uri, rdfs_label, Literal (LStr ingredient_label));
             lowered = lower ingredient_label;
             g3 = (if any_token ANIMAL_PRODUCTS lowered
                   then graph_add g2 (ingredient_uri, rdf_type, rec_AnimalProduct) else g2);
             g4 = (if any_token GLUTEN_GRAINS lowered
                   then graph_add g3 (ingredient_uri, rdf_type, rec_GlutenIngredient) else g3)
         in (ingredient_uri, g4))
      else (ingredient_uri, g))"

text \<open>
  The generator of \<open>has_meat\<close> in \<open>infer_diets\<close>: for each IRI whose label is
  present and true, each meat token is tried on the lower-cased label.
\<close>

definition has_meat_of :: "graph \<Rightarrow> node list \<Rightarrow> bool" where
  "has_meat_of g ingredient_uris =
     list_ex (\<lambda>uri.
        case graph_value g uri rdfs_label of
          None \<Rightarrow> False
        | Some l \<Rightarrow> truthy l \<and> any_token MEAT_TOKENS (lower (node_str l)))
       ingredient_uris"

definition infer_diets :: "graph \<Rightarrow> node \<Rightarrow> node list \<Rightarrow> graph" where
  "infer_diets g recipe_uri ingredient_uris =
     (let has_animal = list_ex (\<lambda>uri. (uri, rdf_type, rec_AnimalProduct) \<in> set g) ingredient_uris;
          has_gluten = list_ex (\<lambda>uri. (uri, rdf_type, rec_GlutenIngredient) \<in> set g) ingredient_uris;
          g1 = (if \<not> has_animal then
                  graph_add (graph_add g (recipe_uri, rec_hasDiet, rec_Vegan))
                    (recipe_uri, rec_hasDiet, rec_Vegetarian)
                else if \<not> has_meat_of g ingredient_uris then
                  graph_add g (recipe_uri, rec_hasDiet, rec_Vegetarian)
                else g);
          g2 = (if \<not> has_gluten then graph_add g1 (recipe_uri, rec_hasDiet, rec_GlutenFree) else g1);
          g3 = (if has_animal
                then graph_add g2 (recipe_uri, rec_avoidsIngredientCategory, rec_AnimalProduct)
                else g2)
      in if has_gluten
         then graph_add g3 (recipe_uri, rec_avoidsIngredientCategory, rec_GlutenIngredient)
         else g3)"

text \<open>
  The ingredient loop of \<open>populate_graph\<close>: each label is annotated and linked to the
  recipe; the IRIs are collected in order.
\<close>

fun add_ingredients :: "graph \<Rightarrow> node \<Rightarrow> string list \<Rightarrow> node list \<times> graph" where
  "add_ingredients g recipe_uri [] = ([], g)"
| "add_ingredients g recipe_uri (ingredient # rest) =
     (let (ingredient_uri, g1) = annotate_ingredient g ingredient;
          g2 = graph_add g1 (recipe_uri, rec_hasIngredient, ingredient_uri);
          (uris, g3) = add_ingredients g2 recipe_uri rest
      in (ingredient_uri # uris, g3))"

text \<open>
  \<open>BNode()\<close> makes a blank node no other call has made. The builder counts its calls,
  and the \<open>n\<close>-th blank node is named by \<open>n\<close>.
\<close>

definition fresh_bnode :: "nat \<Rightarrow> node" where
  "fresh_bnode n = BNode (CHR ''N'' # show_nat n)"

text \<open>
  The direction loop, \<open>enumerate(record.directions, start=1)\<close>: the state is the graph
  and the number of blank nodes made so far.
\<close>

fun add_steps :: "graph \<times> nat \<Rightarrow> node \<Rightarrow> int \<Rightarrow> string list \<Rightarrow> graph \<times> nat" where
  "add_steps (g, n) recipe_uri idx [] = (g, n)"
| "add_steps (g, n) recipe_uri idx (direction # rest) =
     (let step_bnode = fresh_bnode n;
          g1 = graph_add g (step_bnode, rdf_type, schema_HowToStep);
          g2 = graph_add g1 (step_bnode, rdfs_label, Literal (LStr direction));
          g3 = graph_add g2 (step_bnode, schema_position, Literal (LInt idx));
          g4 = graph_add g3 (recipe_uri, schema_step, step_bnode)
      in add_steps (g4, Suc n) recipe_uri (idx + 1) rest)"

text \<open>\<open>s.split(sep)\<close> for a separator of one character.\<close>

fun split_on :: "char \<Rightarrow> string \<Rightarrow> string list" where
  "split_on sep [] = [[]]"
| "split_on sep (c # cs) =
     (if c = sep then [] # split_on sep cs
      else (case split_on sep cs of
              [] \<Rightarrow> [[c]]
            | seg # segs \<Rightarrow> (c # seg) # segs))"

definition cuisine_segments :: "string \<Rightarrow> string list" where
  "cuisine_segments path = filter (\<lambda>segment. segment \<noteq> []) (map strip (split_on (CHR ''>'') path))"

definition cuisine_uri_of :: "string \<Rightarrow> node" where
  "cuisine_uri_of cuisine = REC (''cuisine-'' @ normalise_text cuisine)"

text \<open>The cuisine loop: the state is the graph and \<open>parent_uri\<close>.\<close>

fun add_cuisines :: "graph \<Rightarrow> node option \<Rightarrow> string list \<Rightarrow> graph \<times> node option" where
  "add_cuisines g parent_uri [] = (g, parent_uri)"
| "add_cuisines g parent_uri (cuisine # rest) =
     (let cuisine_uri = cuisine_uri_of cuisine;
          g1 = (if (cuisine_uri, rdf_type, rec_Cuisine) \<notin> set g
                then graph_add (graph_add g (cuisine_uri, rdf_type, rec_Cuisine))
                       (cuisine_uri, rdfs_label, Literal (LStr cuisine))
                else g);
          g2 = (case parent_uri of
                  Some parent \<Rightarrow> graph_add g1 (cuisine_uri, rdfs_subClassOf, parent)
                | None \<Rightarrow> g1)
      in add_cuisines g2 (Some cuisine_uri) rest)"

definition attach_cuisine :: "graph \<Rightarrow> node \<Rightarrow> string option \<Rightarrow> graph" where
  "attach_cuisine g recipe_uri path =
     (case path of
        None \<Rightarrow> g
      | Some p \<Rightarrow>
          if p = [] then g
          else (case add_cuisines g None (cuisine_segments p) of
                  (g1, Some parent_uri) \<Rightarrow> graph_add g1 (recipe_uri, rec_hasCuisine, parent_uri)
                | (g1, None) \<Rightarrow> g1))"

definition recipe_uri_of :: "string \<Rightarrow> node" where
  "recipe_uri_of recipe_name = REC (''recipe-'' @ normalise_text recipe_name)"

definition add_opt :: "graph \<Rightarrow> node \<Rightarrow> node \<Rightarrow> 'a option \<Rightarrow> ('a \<Rightarrow> lit) \<Rightarrow> graph" where
  "add_opt g s p v mk = (case v of None \<Rightarrow> g | Some x \<Rightarrow> graph_add g (s, p, Literal (mk x)))"

text \<open>
  One turn of the loop of \<open>populate_graph\<close>. A record with an empty name is skipped
  (\<open>continue\<close>); \<open>if record.url\<close> also skips an empty URL.
\<close>

fun populate_record :: "graph \<times> nat \<Rightarrow> RecipeRecord \<Rightarrow> graph \<times> nat" where
  "populate_record (g, n) record =
     (if name record = [] then (g, n)
      else
        (let recipe_uri = recipe_uri_of (name record);
             g1 = graph_add g (recipe_uri, rdf_type, rec_Recipe);
             g2 = graph_add g1 (recipe_uri, rdfs_label, Literal (LStr (name record)));
             g3 = (case url record of
                     None \<Rightarrow> g2
                   | Some u \<Rightarrow> if u = [] then g2 else graph_add g2 (recipe_uri, schema_url, Literal (LStr u)));
             g4 = add_opt g3 recipe_uri rec_hasRating (rating record) LFloat;
             g5 = add_opt g4 recipe_uri rec_hasPrepTime (prep_time record) LInt;
             g6 = add_opt g5 recipe_uri rec_hasCookTime (cook_time record) LInt;
             g7 = add_opt g6 recipe_uri rec_hasTotalTime (total_time record) LInt;
             g8 = add_opt g7 recipe_uri rec_hasServings (servings record) LInt;
             (ingredient_uris, g9) = add_ingredients g8 recipe_uri (ingredients record);
             g10 = infer_diets g9 recipe_uri ingredient_uris;
             (g11, n') = add_steps (g10, n) recipe_uri 1 (directions record)
         in (attach_cuisine g11 recipe_uri (cuisine_path record), n')))"



section \<open>The query engine\<close>

text \<open>
  \<open>search\<close> and \<open>recipe_detail\<close> write their arguments into the text of a SPARQL
  query. A filter text stands between double quotes, an identifier between angle
  brackets; the text is read back as the same value only if it has no character that
  ends or escapes the token. With a line break in a string, or a character that no IRI
  may hold in an identifier, the parser raises. With a double quote or a backslash in a
  string, or a closing bracket in an identifier, the text after it is read as part of
  the query: that is another query than the one written in the source, and the model
  stops there with \<open>OtherQuery\<close>.
\<close>

datatype 'a outcome = Returns 'a | Raises pyerr | OtherQuery

definition closes_string :: "char \<Rightarrow> bool" where
  "closes_string c = (c = CHR 0x22 \<or> c = CHR 0x5C)"

definition breaks_string :: "char \<Rightarrow> bool" where
  "breaks_string c = (c = CHR 0x0A \<or> c = CHR 0x0D)"

definition closes_iri :: "char \<Rightarrow> bool" where
  "closes_iri c = (c = CHR ''>'')"

definition breaks_iri :: "char \<Rightarrow> bool" where
  "breaks_iri c =
     ((of_char c :: nat) \<le> 32 \<or> c = CHR ''<'' \<or> c = CHR 0x22 \<or> c = CHR ''{'' \<or> c = CHR ''}''
      \<or> c = CHR ''|'' \<or> c = CHR ''^'' \<or> c = CHR 0x60 \<or> c = CHR 0x5C)"

text \<open>A filter argument is used when it is true in Python: present and not empty.\<close>

definition active :: "string option \<Rightarrow> bool" where
  "active f = (case f of None \<Rightarrow> False | Some s \<Rightarrow> s \<noteq> [])"

definition filter_text :: "string option \<Rightarrow> string" where
  "filter_text f = (case f of None \<Rightarrow> [] | Some s \<Rightarrow> s)"

text \<open>\<open>OPTIONAL\<close>: the matches, or one solution that leaves the variable unbound.\<close>

definition opt :: "'a list \<Rightarrow> 'a option list" where
  "opt xs = (if xs = [] then [None] else map Some xs)"

text \<open>\<open>?s p ?x . ?x rdfs:label ?l\<close>: the labels reached from \<open>s\<close> over \<open>p\<close>.\<close>

definition labels_via :: "graph \<Rightarrow> node \<Rightarrow> node \<Rightarrow> node list" where
  "labels_via g s p = concat (map (\<lambda>x. objects g x rdfs_label) (objects g s p))"

text \<open>The patterns a filter adds to the query: joined when the filter is used.\<close>

definition filter_join :: "string option \<Rightarrow> node list \<Rightarrow> node option list" where
  "filter_join f ls = (if active f then map Some ls else [None])"

text \<open>\<open>LCASE\<close> is defined on string literals; on any other term it is an error.\<close>

fun lcase :: "node \<Rightarrow> string option" where
  "lcase (Literal (LStr s)) = Some (lower s)"
| "lcase _ = None"

text \<open>
  The cast \<open>xsd:integer(?x)\<close> applies \<open>int\<close> to the lexical form of a literal and is an
  error on any other term.
\<close>

fun xsd_integer :: "node \<Rightarrow> int option" where
  "xsd_integer (Literal (LInt i)) = Some i"
| "xsd_integer (Literal (LStr s)) = int_of_string s"
| "xsd_integer (Literal (LFloat f)) = int_of_string (frepr f)"
| "xsd_integer _ = None"

text \<open>The four \<open>FILTER\<close>s. A filter whose expression is an error drops the solution.\<close>

definition ingredient_filter :: "string option \<Rightarrow> node option \<Rightarrow> bool" where
  "ingredient_filter f il =
     (if active f then
        (case il of None \<Rightarrow> False
         | Some l \<Rightarrow> (case lcase l of None \<Rightarrow> False
                      | Some t \<Rightarrow> contains (lower (filter_text f)) t))
      else True)"

definition label_filter :: "string option \<Rightarrow> node option \<Rightarrow> bool" where
  "label_filter f fl =
     (if active f then
        (case fl of None \<Rightarrow> False
         | Some l \<Rightarrow> lcase l = Some (lower (filter_text f)))
      else True)"

definition time_filter :: "int option \<Rightarrow> node option \<Rightarrow> bool" where
  "time_filter max_total_time tt =
     (case max_total_time of None \<Rightarrow> True
      | Some t \<Rightarrow> (case tt of None \<Rightarrow> False
                   | Some n \<Rightarrow> (case xsd_integer n of None \<Rightarrow> False | Some i \<Rightarrow> i \<le> t)))"

record srow =
  s_recipe :: node
  s_label :: node
  s_url :: "node option"
  s_rating :: "node option"
  s_totalTime :: "node option"
  s_cuisineLabel :: "node option"
  s_dietLabel :: "node option"

text \<open>
  The solutions of the \<open>WHERE\<close> block of \<open>search\<close>, projected to the selected
  variables: the recipe pattern, five \<open>OPTIONAL\<close>s, the patterns of the filters in use,
  and the \<open>FILTER\<close>s over the whole group.
\<close>

definition search_rows ::
  "graph \<Rightarrow> string option \<Rightarrow> string option \<Rightarrow> string option \<Rightarrow> int option \<Rightarrow> srow list" where
  "search_rows g ingredient cuisine diet max_total_time =
     [\<lparr>s_recipe = r, s_label = l, s_url = u, s_rating = ra, s_totalTime = tt,
       s_cuisineLabel = cl, s_dietLabel = dl\<rparr>.
        r \<leftarrow> subjects g rdf_type rec_Recipe,
        l \<leftarrow> objects g r rdfs_label,
        u \<leftarrow> opt (objects g r schema_url),
        ra \<leftarrow> opt (objects g r rec_hasRating),
        tt \<leftarrow> opt (objects g r rec_hasTotalTime),
        cl \<leftarrow> opt (labels_via g r rec_hasCuisine),
        dl \<leftarrow> opt (labels_via g r rec_hasDiet),
        il \<leftarrow> filter_join ingredient (labels_via g r rec_hasIngredient),
        cf \<leftarrow> filter_join cuisine (labels_via g r rec_hasCuisine),
        df \<leftarrow> filter_join diet (labels_via g r rec_hasDiet),
        ingredient_filter ingredient il \<and> label_filter cuisine cf \<and> label_filter diet df
          \<and> time_filter max_total_time tt]"

text \<open>
  \<open>ORDER BY LCASE(?label)\<close>: a stable sort on the lower-cased label. Where \<open>LCASE\<close>
  is an error the key is no term, and comparing it with another key raises TypeError.
\<close>

definition label_key :: "srow \<Rightarrow> string" where
  "label_key row = (case lcase (s_label row) of None \<Rightarrow> [] | Some t \<Rightarrow> t)"

definition order_rows :: "srow list \<Rightarrow> srow list outcome" where
  "order_rows rows =
     (if 2 \<le> length rows \<and> list_ex (\<lambda>row. lcase (s_label row) = None) rows
      then Raises TypeError
      else Returns (sort_key label_key rows))"

section \<open>The result assembler\<close>

record RecipeSummary =
  uri :: string
  label :: string
  url :: "string option"
  rating :: "node option"
  total_time :: "node option"
  cuisines :: "string list"
  diets :: "string list"

record RecipeDetail = RecipeSummary +
  ingredients :: "string list"
  directions :: "string list"

text \<open>
  \<open>x.toPython() if x else None\<close> and \<open>str(x) if x else None\<close>, for a variable that
  may be unbound. The Python value of a term is written as the term.
\<close>

definition py_value :: "node option \<Rightarrow> node option" where
  "py_value x = (case x of None \<Rightarrow> None | Some n \<Rightarrow> if truthy n then Some n else None)"

definition str_value :: "node option \<Rightarrow> string option" where
  "str_value x = (case x of None \<Rightarrow> None | Some n \<Rightarrow> if truthy n then Some (node_str n) else None)"

text \<open>
  \<open>if x not in xs: xs.append(x)\<close>. A Python set is held as the list of its elements in
  the order they were first added, and \<open>set.add\<close> is the same step.
\<close>

definition append_new :: "string list \<Rightarrow> string \<Rightarrow> string list" where
  "append_new xs x = (if x \<in> set xs then xs else xs @ [x])"

definition add_value :: "string list \<Rightarrow> node option \<Rightarrow> string list" where
  "add_value xs v = (case str_value v of None \<Rightarrow> xs | Some x \<Rightarrow> append_new xs x)"

definition new_entry :: "srow \<Rightarrow> RecipeSummary" where
  "new_entry row =
     \<lparr>uri = node_str (s_recipe row),
      label = node_str (s_label row),
      url = str_value (s_url row),
      rating = py_value (s_rating row),
      total_time = py_value (s_totalTime row),
      cuisines = [],
      diets = []\<rparr>"

definition update_entry ::
  "(string \<times> RecipeSummary) list \<Rightarrow> string \<Rightarrow> (RecipeSummary \<Rightarrow> RecipeSummary)
     \<Rightarrow> (string \<times> RecipeSummary) list" where
  "update_entry recipe_data k f = map (\<lambda>(k', e). if k' = k then (k', f e) else (k', e)) recipe_data"

text \<open>
  One turn of the grouping loop of \<open>search\<close>. \<open>recipe_data\<close> is a dict, which keeps
  its keys in the order they were inserted.
\<close>

definition add_row :: "(string \<times> RecipeSummary) list \<Rightarrow> srow \<Rightarrow> (string \<times> RecipeSummary) list" where
  "add_row recipe_data row =
     (let recipe_uri = node_str (s_recipe row);
          d1 = (if recipe_uri \<notin> set (map fst recipe_data)
                then recipe_data @ [(recipe_uri, new_entry row)] else recipe_data)
      in update_entry d1 recipe_uri
           (\<lambda>e. e\<lparr>cuisines := add_value (cuisines e) (s_cuisineLabel row),
                   diets := add_value (diets e) (s_dietLabel row)\<rparr>))"

definition group_rows :: "srow list \<Rightarrow> (string \<times> RecipeSummary) list" where
  "group_rows rows = foldl add_row [] rows"

text \<open>
  \<open>list(a_set)\<close> enumerates a set in an order Python does not fix. \<open>set_order\<close>
  stands for it: the enumeration of the set whose elements were added in the given
  order.
\<close>

definition summaries ::
  "(string list \<Rightarrow> string list) \<Rightarrow> (string \<times> RecipeSummary) list \<Rightarrow> RecipeSummary list" where
  "summaries set_order recipe_data =
     map (\<lambda>(recipe_uri, data).
            data\<lparr>cuisines := set_order (cuisines data), diets := set_order (diets data)\<rparr>)
       recipe_data"

definition texts_close :: "string option list \<Rightarrow> bool" where
  "texts_close fs = list_ex (\<lambda>f. active f \<and> list_ex closes_string (filter_text f)) fs"

definition texts_break :: "string option list \<Rightarrow> bool" where
  "texts_break fs = list_ex (\<lambda>f. active f \<and> list_ex breaks_string (filter_text f)) fs"

definition search ::
  "(string list \<Rightarrow> string list) \<Rightarrow> graph \<Rightarrow> string option \<Rightarrow> string option \<Rightarrow> string option
     \<Rightarrow> int option \<Rightarrow> RecipeSummary list outcome" where
  "search set_order g ingredient cuisine diet max_total_time =
     (if texts_close [ingredient, cuisine, diet] then OtherQuery
      else if texts_break [ingredient, cuisine, diet] then Raises ParseException
      else (case order_rows (search_rows g ingredient cuisine diet max_total_time) of
              Returns rows \<Rightarrow> Returns (summaries set_order (group_rows rows))
            | Raises e \<Rightarrow> Raises e
            | OtherQuery \<Rightarrow> OtherQuery))"

section \<open>The detail resolver\<close>

record drow =
  d_label :: node
  d_url :: "node option"
  d_rating :: "node option"
  d_totalTime :: "node option"
  d_ingredientLabel :: "node option"
  d_direction :: "node option"
  d_dietLabel :: "node option"
  d_cuisineLabel :: "node option"

definition detail_rows :: "graph \<Rightarrow> node \<Rightarrow> drow list" where
  "detail_rows g recipe =
     [\<lparr>d_label = l, d_url = u, d_rating = ra, d_totalTime = tt, d_ingredientLabel = il,
       d_direction = di, d_dietLabel = dl, d_cuisineLabel = cl\<rparr>.
        l \<leftarrow> objects g recipe rdfs_label,
        u \<leftarrow> opt (objects g recipe schema_url),
        ra \<leftarrow> opt (objects g recipe rec_hasRating),
        tt \<leftarrow> opt (objects g recipe rec_hasTotalTime),
        il \<leftarrow> opt (labels_via g recipe rec_hasIngredient),
        di \<leftarrow> opt (labels_via g recipe schema_step),
        dl \<leftarrow> opt (labels_via g recipe rec_hasDiet),
        cl \<leftarrow> opt (labels_via g recipe rec_hasCuisine)]"

definition first_detail :: "string \<Rightarrow> drow \<Rightarrow> RecipeDetail" where
  "first_detail recipe_uri first =
     \<lparr>uri = recipe_uri,
      label = node_str (d_label first),
      url = str_value (d_url first),
      rating = py_value (d_rating first),
      total_time = py_value (d_totalTime first),
      cuisines = [],
      diets = [],
      ingredients = [],
      directions = []\<rparr>"

text \<open>One turn of the loop of \<open>recipe_detail\<close> over the rows.\<close>

definition detail_add :: "RecipeDetail \<Rightarrow> drow \<Rightarrow> RecipeDetail" where
  "detail_add detail row =
     detail\<lparr>ingredients := add_value (ingredients detail) (d_ingredientLabel row),
            directions := add_value (directions detail) (d_direction row),
            diets := add_value (diets detail) (d_dietLabel row),
            cuisines := add_value (cuisines detail) (d_cuisineLabel row)\<rparr>"

definition recipe_detail :: "graph \<Rightarrow> string \<Rightarrow> RecipeDetail option outcome" where
  "recipe_detail g recipe_uri =
     (if list_ex closes_iri recipe_uri then OtherQuery
      else if list_ex breaks_iri recipe_uri then Raises ParseException
      else (case detail_rows g (URIRef recipe_uri) of
              [] \<Rightarrow> Returns None
            | first # rest \<Rightarrow>
                Returns (Some (foldl detail_add (first_detail recipe_uri first) (first # rest)))))"

text \<open>
  \<open>self.graph.query(text)\<close> with a \<open>SELECT\<close> query reads the store and leaves it as
  it is; the methods of \<open>RecipeGraph\<close> do nothing else with \<open>self\<close>. A call gives the
  result and the store after it.
\<close>

definition query :: "graph \<Rightarrow> (graph \<Rightarrow> 'a) \<Rightarrow> 'a \<times> graph" where
  "query g q = (q g, g)"

definition search_call ::
  "(string list \<Rightarrow> string list) \<Rightarrow> graph \<Rightarrow> string option \<Rightarrow> string option \<Rightarrow> string option
     \<Rightarrow> int option \<Rightarrow> RecipeSummary list outcome \<times> graph" where
  "search_call set_order g ingredient cuisine diet max_total_time =
     query g (\<lambda>g'. search set_order g' ingredient cuisine diet max_total_time)"

definition recipe_detail_call :: "graph \<Rightarrow> string \<Rightarrow> RecipeDetail option outcome \<times> graph" where
  "recipe_detail_call g recipe_uri = query g (\<lambda>g'. recipe_detail g' recipe_uri)"

section \<open>Reading the integer fields of a row\<close>

text \<open>
  \<open>load_records\<close> reads \<open>prep_time\<close>, \<open>cook_time\<close>, \<open>total_time\<close> and
  \<open>servings\<close> of a row with \<open>to_optional_int(row.get(key))\<close>; \<open>row.get\<close> gives
  \<open>None\<close> for a key the row does not have.
\<close>

definition row_get :: "(string \<rightharpoonup> pyval) \<Rightarrow> string \<Rightarrow> pyval" where
  "row_get row key = (case row key of None \<Rightarrow> PNone | Some v \<Rightarrow> v)"

definition load_int_field :: "(string \<rightharpoonup> pyval) \<Rightarrow> string \<Rightarrow> pyerr + int option" where
  "load_int_field row key = to_optional_int (row_get row key)"

section \<open>Reading the name of a row\<close>









section \<open>Parts of the builder's loop body\<close>

text \<open>
  Two parts of the loop body of \<open>populate_graph\<close>, named for the proofs: the scalar
  attributes of a record, and one turn of the cuisine loop.
\<close>

definition record_attrs :: "graph \<Rightarrow> RecipeRecord \<Rightarrow> graph" where
  "record_attrs g record =
     (let recipe_uri = recipe_uri_of (name record);
          g1 = graph_add g (recipe_uri, rdf_type, rec_Recipe);
          g2 = graph_add g1 (recipe_uri, rdfs_label, Literal (LStr (name record)));
          g3 = (case RecipeRecord.url record of
                  None \<Rightarrow> g2
                | Some u \<Rightarrow> if u = [] then g2 else graph_add g2 (recipe_uri, schema_url, Literal (LStr u)));
          g4 = add_opt g3 recipe_uri rec_hasRating (RecipeRecord.rating record) LFloat;
          g5 = add_opt g4 recipe_uri rec_hasPrepTime (prep_time record) LInt;
          g6 = add_opt g5 recipe_uri rec_hasCookTime (cook_time record) LInt;
          g7 = add_opt g6 recipe_uri rec_hasTotalTime (RecipeRecord.total_time record) LInt
      in add_opt g7 recipe_uri rec_hasServings (servings record) LInt)"

definition cuisine_step :: "graph \<Rightarrow> node option \<Rightarrow> string \<Rightarrow> graph" where
  "cuisine_step g parent_uri cuisine =
     (let cuisine_uri = cuisine_uri_of cuisine;
          g1 = (if (cuisine_uri, rdf_type, rec_Cuisine) \<notin> set g
                then graph_add (graph_add g (cuisine_uri, rdf_type, rec_Cuisine))
                       (cuisine_uri, rdfs_label, Literal (LStr cuisine))
                else g)
      in (case parent_uri of
            Some parent \<Rightarrow> graph_add g1 (cuisine_uri, rdfs_subClassOf, parent)
          | None \<Rightarrow> g1))"




section \<open>Notions the claims are stated with\<close>

text \<open>
  An identifier that can stand between angle brackets, and a filter text that can stand
  between double quotes, in the query text.
\<close>

definition iri_ok :: "string \<Rightarrow> bool" where
  "iri_ok recipe_uri = (\<not> list_ex closes_iri recipe_uri \<and> \<not> list_ex breaks_iri recipe_uri)"

definition text_ok :: "string option \<Rightarrow> bool" where
  "text_ok f = (\<not> list_ex closes_string (filter_text f) \<and> \<not> list_ex breaks_string (filter_text f))"

text \<open>
  The values of a list without repetition, each at the place where it is first seen.
\<close>

function first_seen :: "'a list \<Rightarrow> 'a list" where
  "first_seen [] = []"
| "first_seen (x # xs) = x # first_seen (removeAll x xs)"
  by pat_completeness auto
termination
  by (relation "measure length") (auto simp: less_Suc_eq_le)

text \<open>The values a column of the rows gives to the loops: bound and true, as strings.\<close>

definition column :: "('r \<Rightarrow> node option) \<Rightarrow> 'r list \<Rightarrow> string list" where
  "column f rows = List.map_filter (\<lambda>row. str_value (f row)) rows"

text \<open>
  A small store for the examples: a soup with three ingredients (two of them labelled
  alike), one cuisine, two diets and a total time; a pie with a cuisine and no total
  time; a stew that has a label and a total time only.
\<close>

definition example_store :: graph where
  "example_store =
     [(URIRef ''r1'', rdf_type, rec_Recipe),
      (URIRef ''r1'', rdfs_label, Literal (LStr ''Lentil Soup'')),
      (URIRef ''r1'', rec_hasIngredient, URIRef ''i1''),
      (URIRef ''r1'', rec_hasIngredient, URIRef ''i2''),
      (URIRef ''r1'', rec_hasIngredient, URIRef ''i3''),
      (URIRef ''i1'', rdfs_label, Literal (LStr ''Salt'')),
      (URIRef ''i2'', rdfs_label, Literal (LStr ''Red Lentils'')),
      (URIRef ''i3'', rdfs_label, Literal (LStr ''Salt'')),
      (URIRef ''r1'', rec_hasCuisine, URIRef ''c1''),
      (URIRef ''c1'', rdfs_label, Literal (LStr ''Indian'')),
      (URIRef ''r1'', rec_hasDiet, URIRef ''d1''),
      (URIRef ''r1'', rec_hasDiet, URIRef ''d2''),
      (URIRef ''d1'', rdfs_label, Literal (LStr ''Vegan'')),
      (URIRef ''d2'', rdfs_label, Literal (LStr ''GlutenFree'')),
      (URIRef ''r1'', rec_hasTotalTime, Literal (LInt 30)),
      (URIRef ''r2'', rdf_type, rec_Recipe),
      (URIRef ''r2'', rdfs_label, Literal (LStr ''apple pie'')),
      (URIRef ''r2'', rec_hasIngredient, URIRef ''i4''),
      (URIRef ''i4'', rdfs_label, Literal (LStr ''Butter'')),
      (URIRef ''r2'', rec_hasCuisine, URIRef ''c2''),
      (URIRef ''c2'', rdfs_label, Literal (LStr ''French'')),
      (URIRef ''r3'', rdf_type, rec_Recipe),
      (URIRef ''r3'', rdfs_label, Literal (LStr ''Beef Stew'')),
      (URIRef ''r3'', rec_hasTotalTime, Literal (LInt 120))]"

text \<open>
  A recipe of a store is a term typed \<open>rec:Recipe\<close> that has a label. The four filters
  as the specification words them: some ingredient label contains the text, some cuisine
  (diet) label equals the text, both without regard to case, and some total time is an
  integer within the bound.
\<close>

definition is_recipe :: "graph \<Rightarrow> node \<Rightarrow> bool" where
  "is_recipe g r = ((r, rdf_type, rec_Recipe) \<in> set g \<and> objects g r rdfs_label \<noteq> [])"

definition has_ingredient_like :: "graph \<Rightarrow> node \<Rightarrow> string \<Rightarrow> bool" where
  "has_ingredient_like g r s =
     list_ex (\<lambda>l. case lcase l of None \<Rightarrow> False | Some t \<Rightarrow> contains (lower s) t)
       (labels_via g r rec_hasIngredient)"

definition has_label_like :: "graph \<Rightarrow> node \<Rightarrow> node \<Rightarrow> string \<Rightarrow> bool" where
  "has_label_like g r p c = list_ex (\<lambda>l. lcase l = Some (lower c)) (labels_via g r p)"

definition within_time :: "graph \<Rightarrow> node \<Rightarrow> int \<Rightarrow> bool" where
  "within_time g r t =
     list_ex (\<lambda>n. case xsd_integer n of None \<Rightarrow> False | Some i \<Rightarrow> i \<le> t)
       (objects g r rec_hasTotalTime)"

text \<open>The filters together: each one that is used must hold.\<close>

definition matches ::
  "graph \<Rightarrow> string option \<Rightarrow> string option \<Rightarrow> string option \<Rightarrow> int option \<Rightarrow> node \<Rightarrow> bool" where
  "matches g ingredient cuisine diet max_total_time r =
     ((active ingredient \<longrightarrow> has_ingredient_like g r (filter_text ingredient))
      \<and> (active cuisine \<longrightarrow> has_label_like g r rec_hasCuisine (filter_text cuisine))
      \<and> (active diet \<longrightarrow> has_label_like g r rec_hasDiet (filter_text diet))
      \<and> (case max_total_time of None \<Rightarrow> True | Some t \<Rightarrow> within_time g r t))"

text \<open>Every label of a term typed \<open>rec:Recipe\<close> is a string literal.\<close>

definition recipe_labels_plain :: "graph \<Rightarrow> bool" where
  "recipe_labels_plain g =
     list_all (\<lambda>(s, p, ob). p = rdfs_label \<and> (s, rdf_type, rec_Recipe) \<in> set g \<longrightarrow> lcase ob \<noteq> None) g"

text \<open>What is known of \<open>list(a_set)\<close>: it lists the elements of the set.\<close>

definition enumerates :: "(string list \<Rightarrow> string list) \<Rightarrow> bool" where
  "enumerates set_order = (\<forall>xs. set (set_order xs) = set xs)"

text \<open>
  The key of a row in the grouping loop, and the rows at which the loop meets a key it
  has not seen.
\<close>

definition recipe_key :: "srow \<Rightarrow> string" where
  "recipe_key row = node_str (s_recipe row)"

fun firsts :: "string set \<Rightarrow> srow list \<Rightarrow> srow list" where
  "firsts seen [] = []"
| "firsts seen (row # rows) =
     (if recipe_key row \<in> seen then firsts seen rows
      else row # firsts (insert (recipe_key row) seen) rows)"

text \<open>What the grouping loop does to the entry of a row's recipe.\<close>

definition row_update :: "srow \<Rightarrow> RecipeSummary \<Rightarrow> RecipeSummary" where
  "row_update row = (\<lambda>e. e\<lparr>cuisines := add_value (cuisines e) (s_cuisineLabel row),
                              diets := add_value (diets e) (s_dietLabel row)\<rparr>)"

section \<open>Facts about strings\<close>

lemma contains_iff: "contains sub s \<longleftrightarrow> (\<exists>p q. s = p @ sub @ q)"
proof (induction s)
  case Nil
  then show ?case by simp
next
  case (Cons c cs)
  show ?case
  proof
    assume "contains sub (c # cs)"
    then consider "prefix sub (c # cs)" | "contains sub cs" by auto
    then show "\<exists>p q. c # cs = p @ sub @ q"
    proof cases
      case 1
      then obtain q where "c # cs = sub @ q" by (auto simp: prefix_def)
      then have "c # cs = [] @ sub @ q" by simp
      then show ?thesis by blast
    next
      case 2
      with Cons.IH obtain p q where "cs = p @ sub @ q" by blast
      then have "c # cs = (c # p) @ sub @ q" by simp
      then show ?thesis by blast
    qed
  next
    assume "\<exists>p q. c # cs = p @ sub @ q"
    then obtain p q where pq: "c # cs = p @ sub @ q" by blast
    show "contains sub (c # cs)"
    proof (cases p)
      case Nil
      with pq have "prefix sub (c # cs)" by (simp add: prefix_def)
      then show ?thesis by simp
    next
      case (Cons a p')
      with pq have "cs = p' @ sub @ q" by simp
      with Cons.IH have "contains sub cs" by blast
      then show ?thesis by simp
    qed
  qed
qed

section \<open>The store only grows while it is built\<close>


lemma set_graph_add [simp]: "set (graph_add g t) = insert t (set g)"
  by (auto simp: graph_add_def)

lemma set_graph_add_all [simp]: "set (graph_add_all g ts) = set g \<union> set ts"
  unfolding graph_add_all_def by (induction ts arbitrary: g) auto

lemma mono_annotate: "set g \<subseteq> set (snd (annotate_ingredient g l))"
  by (auto simp: annotate_ingredient_def Let_def)

lemma mono_add_ingredients: "set g \<subseteq> set (snd (add_ingredients g r ls))"
proof (induction ls arbitrary: g)
  case Nil
  then show ?case by simp
next
  case (Cons l ls)
  obtain u g1 where a: "annotate_ingredient g l = (u, g1)" by (cases "annotate_ingredient g l")
  have 1: "set g \<subseteq> set g1" using mono_annotate[of g l] a by simp
  have 2: "set (graph_add g1 (r, rec_hasIngredient, u))
      \<subseteq> set (snd (add_ingredients (graph_add g1 (r, rec_hasIngredient, u)) r ls))"
    by (rule Cons.IH)
  have 3: "snd (add_ingredients g r (l # ls))
     = snd (add_ingredients (graph_add g1 (r, rec_hasIngredient, u)) r ls)"
    using a by (simp add: Let_def split_beta)
  show ?case unfolding 3 using 1 2 by auto
qed

lemma mono_infer_diets: "set g \<subseteq> set (infer_diets g r us)"
  unfolding infer_diets_def Let_def by (simp add: subset_insertI2)


lemma mono_add_steps: "set g \<subseteq> set (fst (add_steps (g, n) r i ds))"
proof (induction ds arbitrary: g n i)
  case Nil
  then show ?case by simp
next
  case (Cons d ds)
  let ?g4 = "graph_add (graph_add (graph_add (graph_add g (fresh_bnode n, rdf_type, schema_HowToStep))
      (fresh_bnode n, rdfs_label, Literal (LStr d))) (fresh_bnode n, schema_position, Literal (LInt i)))
      (r, schema_step, fresh_bnode n)"
  have 1: "add_steps (g, n) r i (d # ds) = add_steps (?g4, Suc n) r (i + 1) ds"
    by (simp add: Let_def)
  have 2: "set g \<subseteq> set ?g4" by auto
  show ?case unfolding 1 using 2 Cons.IH[of ?g4 "Suc n" "i + 1"] by blast
qed


lemma add_cuisines_Cons:
  "add_cuisines g p (c # cs) = add_cuisines (cuisine_step g p c) (Some (cuisine_uri_of c)) cs"
  by (simp add: cuisine_step_def Let_def)

lemma mono_cuisine_step: "set g \<subseteq> set (cuisine_step g p c)"
  by (auto simp: cuisine_step_def Let_def split: option.splits)

lemma mono_add_cuisines: "set g \<subseteq> set (fst (add_cuisines g p cs))"
proof (induction cs arbitrary: g p)
  case Nil
  then show ?case by simp
next
  case (Cons c cs)
  show ?case unfolding add_cuisines_Cons
    using mono_cuisine_step[of g p c] Cons.IH[of "cuisine_step g p c" "Some (cuisine_uri_of c)"]
    by blast
qed

lemma mono_attach_cuisine: "set g \<subseteq> set (attach_cuisine g r p)"
proof (cases p)
  case None
  then show ?thesis by (simp add: attach_cuisine_def)
next
  case (Some path)
  obtain g1 pu where a: "add_cuisines g None (cuisine_segments path) = (g1, pu)"
    by (cases "add_cuisines g None (cuisine_segments path)")
  have "set g \<subseteq> set g1" using mono_add_cuisines[of g None "cuisine_segments path"] a by simp
  then show ?thesis using Some a by (auto simp: attach_cuisine_def split: option.splits)
qed

lemma mono_add_opt: "set g \<subseteq> set (add_opt g s p v mk)"
  by (auto simp: add_opt_def split: option.splits)





lemma populate_record_eq:
  assumes "name r \<noteq> []"
  shows "populate_record (g, n) r =
     (let ru = recipe_uri_of (name r);
          ai = add_ingredients (record_attrs g r) ru (RecipeRecord.ingredients r);
          st = add_steps (infer_diets (snd ai) ru (fst ai), n) ru 1 (RecipeRecord.directions r)
      in (attach_cuisine (fst st) ru (cuisine_path r), snd st))"
  using assms unfolding populate_record.simps record_attrs_def Let_def by (simp add: split_beta)

lemma set_add_opt: "set (add_opt g s p v mk) = set g \<union> (case v of None \<Rightarrow> {} | Some x \<Rightarrow> {(s, p, Literal (mk x))})"
  by (auto simp: add_opt_def split: option.splits)

lemma set_record_attrs:
  "set (record_attrs g r) = set g \<union>
     {(recipe_uri_of (name r), rdf_type, rec_Recipe),
      (recipe_uri_of (name r), rdfs_label, Literal (LStr (name r)))}
     \<union> (case RecipeRecord.url r of None \<Rightarrow> {} | Some u \<Rightarrow>
          if u = [] then {} else {(recipe_uri_of (name r), schema_url, Literal (LStr u))})
     \<union> (case RecipeRecord.rating r of None \<Rightarrow> {} | Some x \<Rightarrow> {(recipe_uri_of (name r), rec_hasRating, Literal (LFloat x))})
     \<union> (case prep_time r of None \<Rightarrow> {} | Some x \<Rightarrow> {(recipe_uri_of (name r), rec_hasPrepTime, Literal (LInt x))})
     \<union> (case cook_time r of None \<Rightarrow> {} | Some x \<Rightarrow> {(recipe_uri_of (name r), rec_hasCookTime, Literal (LInt x))})
     \<union> (case RecipeRecord.total_time r of None \<Rightarrow> {} | Some x \<Rightarrow> {(recipe_uri_of (name r), rec_hasTotalTime, Literal (LInt x))})
     \<union> (case servings r of None \<Rightarrow> {} | Some x \<Rightarrow> {(recipe_uri_of (name r), rec_hasServings, Literal (LInt x))})"
  unfolding record_attrs_def Let_def set_add_opt
  by (auto split: option.splits)

lemma attrs_in_populate_record:
  assumes "name r \<noteq> []"
  shows "set (record_attrs g r) \<subseteq> set (fst (populate_record (g, n) r))"
proof -
  let ?ru = "recipe_uri_of (name r)"
  let ?ai = "add_ingredients (record_attrs g r) ?ru (RecipeRecord.ingredients r)"
  let ?g10 = "infer_diets (snd ?ai) ?ru (fst ?ai)"
  let ?st = "add_steps (?g10, n) ?ru 1 (RecipeRecord.directions r)"
  have e: "fst (populate_record (g, n) r) = attach_cuisine (fst ?st) ?ru (cuisine_path r)"
    using populate_record_eq[OF assms, of g n] by (simp add: Let_def)
  have "set (record_attrs g r) \<subseteq> set (snd ?ai)" by (rule mono_add_ingredients)
  also have "\<dots> \<subseteq> set ?g10" by (rule mono_infer_diets)
  also have "\<dots> \<subseteq> set (fst ?st)" by (rule mono_add_steps)
  also have "\<dots> \<subseteq> set (attach_cuisine (fst ?st) ?ru (cuisine_path r))" by (rule mono_attach_cuisine)
  finally show ?thesis unfolding e .
qed

lemma trunc_toward_zero: "\<bar>of_int (trunc q)\<bar> \<le> \<bar>q\<bar> \<and> \<bar>q\<bar> < \<bar>of_int (trunc q)\<bar> + 1 \<and> (0 \<le> q \<longrightarrow> 0 \<le> trunc q) \<and> (q \<le> 0 \<longrightarrow> trunc q \<le> 0)"
  unfolding trunc_def by (auto; linarith)

lemma to_optional_int_None_iff:
  "to_optional_int v = Inr None \<longleftrightarrow>
     v = PNone \<or> is_nan v \<or> py_int v = Inl TypeError \<or> py_int v = Inl ValueError"
  by (cases v) (auto simp: to_optional_int_def is_nan_def split: sum.splits pyerr.splits fvalue.splits option.splits)


lemma trunc_example: "trunc (181 / 2) = 90"
  by code_simp

lemma int_of_string_example: "int_of_string ''90.5'' = None"
  by code_simp

lemma int_of_string_example2: "int_of_string '' -1_000 '' = Some (-1000)"
  by code_simp

section \<open>Claim C10: fractional time and servings values\<close>

text \<open>
  C10. A prep-time, cook-time, total-time or servings field that a row gives as a finite
  float is read as the integer obtained by cutting the fraction off toward zero, and is
  present. The field is absent exactly when the value is \<open>None\<close> (also for a missing
  key), NaN, or a value on which \<open>int\<close> raises TypeError or ValueError, such as the
  string \<open>"90.5"\<close>. A field that is present in a record with a name is attached to the
  recipe as an integer literal.
\<close>

theorem fractional_field_truncated:
  "(row_get row key = PFloat f \<and> fval f = Finite q \<longrightarrow>
      load_int_field row key = Inr (Some (trunc q))
      \<and> \<bar>of_int (trunc q)\<bar> \<le> \<bar>q\<bar> \<and> \<bar>q\<bar> < \<bar>of_int (trunc q)\<bar> + 1)
   \<and> (load_int_field row key = Inr None \<longleftrightarrow>
        row_get row key = PNone \<or> is_nan (row_get row key)
        \<or> py_int (row_get row key) = Inl TypeError \<or> py_int (row_get row key) = Inl ValueError)
   \<and> (name r \<noteq> [] \<longrightarrow>
        (\<forall>i. prep_time r = Some i \<longrightarrow>
           (recipe_uri_of (name r), rec_hasPrepTime, Literal (LInt i)) \<in> set (fst (populate_record (g, n) r)))
      \<and> (\<forall>i. cook_time r = Some i \<longrightarrow>
           (recipe_uri_of (name r), rec_hasCookTime, Literal (LInt i)) \<in> set (fst (populate_record (g, n) r)))
      \<and> (\<forall>i. RecipeRecord.total_time r = Some i \<longrightarrow>
           (recipe_uri_of (name r), rec_hasTotalTime, Literal (LInt i)) \<in> set (fst (populate_record (g, n) r)))
      \<and> (\<forall>i. servings r = Some i \<longrightarrow>
           (recipe_uri_of (name r), rec_hasServings, Literal (LInt i)) \<in> set (fst (populate_record (g, n) r))))"
proof (intro conjI impI allI)
  assume a: "row_get row key = PFloat f \<and> fval f = Finite q"
  then show "load_int_field row key = Inr (Some (trunc q))"
    by (simp add: load_int_field_def to_optional_int_def is_nan_def)
  show "\<bar>of_int (trunc q)\<bar> \<le> \<bar>q\<bar>" using trunc_toward_zero[of q] by simp
  show "\<bar>q\<bar> < \<bar>of_int (trunc q)\<bar> + 1" using trunc_toward_zero[of q] by simp
next
  show "load_int_field row key = Inr None \<longleftrightarrow>
        row_get row key = PNone \<or> is_nan (row_get row key)
        \<or> py_int (row_get row key) = Inl TypeError \<or> py_int (row_get row key) = Inl ValueError"
    unfolding load_int_field_def by (rule to_optional_int_None_iff)
next
  fix i assume "name r \<noteq> []" "prep_time r = Some i"
  then show "(recipe_uri_of (name r), rec_hasPrepTime, Literal (LInt i)) \<in> set (fst (populate_record (g, n) r))"
    using attrs_in_populate_record[of r g n] by (auto simp: set_record_attrs)
next
  fix i assume "name r \<noteq> []" "cook_time r = Some i"
  then show "(recipe_uri_of (name r), rec_hasCookTime, Literal (LInt i)) \<in> set (fst (populate_record (g, n) r))"
    using attrs_in_populate_record[of r g n] by (auto simp: set_record_attrs)
next
  fix i assume "name r \<noteq> []" "RecipeRecord.total_time r = Some i"
  then show "(recipe_uri_of (name r), rec_hasTotalTime, Literal (LInt i)) \<in> set (fst (populate_record (g, n) r))"
    using attrs_in_populate_record[of r g n] by (auto simp: set_record_attrs)
next
  fix i assume "name r \<noteq> []" "servings r = Some i"
  then show "(recipe_uri_of (name r), rec_hasServings, Literal (LInt i)) \<in> set (fst (populate_record (g, n) r))"
    using attrs_in_populate_record[of r g n] by (auto simp: set_record_attrs)
qed

theorem fractional_field_truncated_witness:
  "load_int_field [''total_time'' \<mapsto> PFloat (PyFloat (Finite (181 / 2)) ''90.5'')] ''total_time''
     = Inr (Some 90)
   \<and> load_int_field [''total_time'' \<mapsto> PStr ''90.5''] ''total_time'' = Inr None
   \<and> (recipe_uri_of ''Lentil Soup'', rec_hasTotalTime, Literal (LInt 90))
       \<in> set (fst (populate_record ([], 0)
            \<lparr>name = ''Lentil Soup'', prep_time = None, cook_time = None, total_time = Some 90,
             servings = None, ingredients = [], directions = [], rating = None, url = None,
             cuisine_path = None\<rparr>))"
proof -
  let ?r = "\<lparr>name = ''Lentil Soup'', prep_time = None, cook_time = None, total_time = Some 90,
             servings = None, ingredients = [], directions = [], rating = None, url = None,
             cuisine_path = None\<rparr>"
  have 1: "load_int_field [''total_time'' \<mapsto> PFloat (PyFloat (Finite (181 / 2)) ''90.5'')] ''total_time''
     = Inr (Some 90)"
    using fractional_field_truncated[of "[''total_time'' \<mapsto> PFloat (PyFloat (Finite (181 / 2)) ''90.5'')]"
        "''total_time''" "PyFloat (Finite (181 / 2)) ''90.5''" "181 / 2" ?r "[]" 0]
    by (simp add: row_get_def trunc_example)
  have 2: "load_int_field [''total_time'' \<mapsto> PStr ''90.5''] ''total_time'' = Inr None"
    using fractional_field_truncated[of "[''total_time'' \<mapsto> PStr ''90.5'']" "''total_time''" "PyFloat NaN ''nan''" 0 ?r "[]" 0]
    by (simp add: row_get_def int_of_string_example)
  have 3: "(recipe_uri_of ''Lentil Soup'', rec_hasTotalTime, Literal (LInt 90))
       \<in> set (fst (populate_record ([], 0) ?r))"
    using fractional_field_truncated[of Map.empty "''total_time''" "PyFloat NaN ''nan''" 0 ?r "[]" 0]
    by simp
  show ?thesis using 1 2 3 by blast
qed

section \<open>The vocabulary is free of clashes\<close>


lemma REC_inject [simp]: "REC x = REC y \<longleftrightarrow> x = y"
  by (simp add: REC_def)

lemma ns_distinct [simp]:
  "REC x \<noteq> RDF y" "REC x \<noteq> RDFS y" "REC x \<noteq> OWL y" "REC x \<noteq> SCHEMA y"
  "RDF y \<noteq> REC x" "RDFS y \<noteq> REC x" "OWL y \<noteq> REC x" "SCHEMA y \<noteq> REC x"
  "RDF x \<noteq> RDFS y" "RDF x \<noteq> OWL y" "RDF x \<noteq> SCHEMA y"
  "RDFS x \<noteq> RDF y" "OWL x \<noteq> RDF y" "SCHEMA x \<noteq> RDF y"
  "RDFS x \<noteq> OWL y" "RDFS x \<noteq> SCHEMA y" "OWL x \<noteq> RDFS y" "SCHEMA x \<noteq> RDFS y"
  "OWL x \<noteq> SCHEMA y" "SCHEMA x \<noteq> OWL y"
  by (simp_all add: REC_def RDF_def RDFS_def OWL_def SCHEMA_def BASE_URI_def)

lemma ns_inject [simp]:
  "RDF x = RDF y \<longleftrightarrow> x = y" "RDFS x = RDFS y \<longleftrightarrow> x = y"
  "OWL x = OWL y \<longleftrightarrow> x = y" "SCHEMA x = SCHEMA y \<longleftrightarrow> x = y"
  by (simp_all add: RDF_def RDFS_def OWL_def SCHEMA_def)

lemma ns_not_other [simp]:
  "REC x \<noteq> BNode b" "REC x \<noteq> Literal l" "BNode b \<noteq> REC x" "Literal l \<noteq> REC x"
  by (simp_all add: REC_def)



section \<open>What each part of the loop body adds\<close>


lemma annotate_ingredient_fst [simp]: "fst (annotate_ingredient g l) = ingredient_uri_of l"
  by (simp add: annotate_ingredient_def Let_def)


lemma add_ingredients_Cons:
  "add_ingredients g r (l # ls) =
     (ingredient_uri_of l #
        fst (add_ingredients (graph_add (snd (annotate_ingredient g l)) (r, rec_hasIngredient, ingredient_uri_of l)) r ls),
      snd (add_ingredients (graph_add (snd (annotate_ingredient g l)) (r, rec_hasIngredient, ingredient_uri_of l)) r ls))"
proof -
  obtain u g1 where a: "annotate_ingredient g l = (u, g1)" by (cases "annotate_ingredient g l")
  have u: "u = ingredient_uri_of l" using annotate_ingredient_fst[of g l] a by simp
  show ?thesis using a u by (simp add: Let_def split_beta)
qed

declare add_ingredients.simps(2) [simp del]

lemma add_ingredients_fst [simp]: "fst (add_ingredients g r ls) = map ingredient_uri_of ls"
  by (induction ls arbitrary: g) (simp_all add: add_ingredients_Cons)







declare add_steps.simps(2) [simp del]


declare add_cuisines.simps(2) [simp del]








section \<open>One turn of the builder's loop\<close>


declare populate_record.simps [simp del]














section \<open>Claim C6: records without a name\<close>






















section \<open>Claim C7: the cuisine chain\<close>












section \<open>Claim C9: the lists of a detail record\<close>


lemma set_first_seen [simp]: "set (first_seen xs) = set xs"
  by (induction xs rule: first_seen.induct) auto

lemma distinct_first_seen [simp]: "distinct (first_seen xs)"
  by (induction xs rule: first_seen.induct) auto

lemma foldl_append_new:
  "foldl append_new acc xs = acc @ first_seen (filter (\<lambda>x. x \<notin> set acc) xs)"
proof (induction xs arbitrary: acc)
  case Nil
  then show ?case by simp
next
  case (Cons x xs)
  show ?case
  proof (cases "x \<in> set acc")
    case True
    then show ?thesis using Cons.IH[of acc] by (simp add: append_new_def)
  next
    case False
    have "removeAll x (filter (\<lambda>y. y \<notin> set acc) xs) = filter (\<lambda>y. y \<notin> set (acc @ [x])) xs"
      by (induction xs) auto
    then show ?thesis using False Cons.IH[of "acc @ [x]"] by (simp add: append_new_def)
  qed
qed

lemma foldl_add_value:
  "foldl (\<lambda>xs row. add_value xs (f row)) acc rows = foldl append_new acc (column f rows)"
  by (induction rows arbitrary: acc)
     (auto simp: column_def List.map_filter_simps add_value_def split: option.splits)

lemma collected_first_seen:
  "foldl (\<lambda>xs row. add_value xs (f row)) [] rows = first_seen (column f rows)"
  by (simp add: foldl_add_value foldl_append_new)

lemma detail_fold_fields:
  "ingredients (foldl detail_add d rows) = foldl (\<lambda>xs row. add_value xs (d_ingredientLabel row)) (ingredients d) rows
   \<and> directions (foldl detail_add d rows) = foldl (\<lambda>xs row. add_value xs (d_direction row)) (directions d) rows
   \<and> diets (foldl detail_add d rows) = foldl (\<lambda>xs row. add_value xs (d_dietLabel row)) (diets d) rows
   \<and> cuisines (foldl detail_add d rows) = foldl (\<lambda>xs row. add_value xs (d_cuisineLabel row)) (cuisines d) rows
   \<and> uri (foldl detail_add d rows) = uri d \<and> label (foldl detail_add d rows) = label d"
  by (induction rows arbitrary: d) (simp_all add: detail_add_def)

lemma recipe_detail_Some:
  assumes "recipe_detail g recipe_uri = Returns (Some d)"
  shows "iri_ok recipe_uri \<and> detail_rows g (URIRef recipe_uri) \<noteq> []
     \<and> d = foldl detail_add (first_detail recipe_uri (hd (detail_rows g (URIRef recipe_uri))))
             (detail_rows g (URIRef recipe_uri))"
  using assms by (auto simp: recipe_detail_def iri_ok_def split: if_splits list.splits)

lemma detail_rows_empty_iff:
  "detail_rows g recipe = [] \<longleftrightarrow> objects g recipe rdfs_label = []"
  by (auto simp: detail_rows_def opt_def)


text \<open>
  C9. An identifier that can be written as an IRI and has a label in the store has a
  detail record. In the record that \<open>recipe_detail\<close> returns, the ingredients, the
  directions, the diets and the cuisines are the values of their column of the joined
  rows, each value once, at the place where the rows show it first; so none of the four
  lists has a value twice.
\<close>

theorem detail_lists_first_seen:
  "(iri_ok recipe_uri \<and> objects g (URIRef recipe_uri) rdfs_label \<noteq> []
      \<longrightarrow> (\<exists>d. recipe_detail g recipe_uri = Returns (Some d)))
   \<and> (recipe_detail g recipe_uri = Returns (Some d) \<longrightarrow>
        ingredients d = first_seen (column d_ingredientLabel (detail_rows g (URIRef recipe_uri)))
      \<and> directions d = first_seen (column d_direction (detail_rows g (URIRef recipe_uri)))
      \<and> diets d = first_seen (column d_dietLabel (detail_rows g (URIRef recipe_uri)))
      \<and> cuisines d = first_seen (column d_cuisineLabel (detail_rows g (URIRef recipe_uri)))
      \<and> distinct (ingredients d) \<and> distinct (directions d) \<and> distinct (diets d)
      \<and> distinct (cuisines d))"
proof (intro conjI impI)
  assume a: "iri_ok recipe_uri \<and> objects g (URIRef recipe_uri) rdfs_label \<noteq> []"
  then have "detail_rows g (URIRef recipe_uri) \<noteq> []" by (simp add: detail_rows_empty_iff)
  then show "\<exists>d. recipe_detail g recipe_uri = Returns (Some d)"
    using a by (auto simp: recipe_detail_def iri_ok_def split: list.splits)
next
  assume a: "recipe_detail g recipe_uri = Returns (Some d)"
  let ?rows = "detail_rows g (URIRef recipe_uri)"
  let ?d0 = "first_detail recipe_uri (hd ?rows)"
  have d: "d = foldl detail_add ?d0 ?rows" using recipe_detail_Some[OF a] by simp
  have d0: "ingredients ?d0 = []" "directions ?d0 = []" "diets ?d0 = []" "cuisines ?d0 = []"
    by (simp_all add: first_detail_def)
  show i: "ingredients d = first_seen (column d_ingredientLabel ?rows)"
    unfolding d using detail_fold_fields[of ?d0 ?rows] d0 by (simp add: collected_first_seen)
  show di: "directions d = first_seen (column d_direction ?rows)"
    unfolding d using detail_fold_fields[of ?d0 ?rows] d0 by (simp add: collected_first_seen)
  show dt: "diets d = first_seen (column d_dietLabel ?rows)"
    unfolding d using detail_fold_fields[of ?d0 ?rows] d0 by (simp add: collected_first_seen)
  show c: "cuisines d = first_seen (column d_cuisineLabel ?rows)"
    unfolding d using detail_fold_fields[of ?d0 ?rows] d0 by (simp add: collected_first_seen)
  show "distinct (ingredients d)" unfolding i by simp
  show "distinct (directions d)" unfolding di by simp
  show "distinct (diets d)" unfolding dt by simp
  show "distinct (cuisines d)" unfolding c by simp
qed


lemma example_soup_ingredients:
  "first_seen (column d_ingredientLabel (detail_rows example_store (URIRef ''r1'')))
     = [''Salt'', ''Red Lentils'']"
  by code_simp

lemma example_soup_label: "objects example_store (URIRef ''r1'') rdfs_label \<noteq> []"
  by code_simp

lemma iri_ok_r1: "iri_ok ''r1''"
  by code_simp

theorem detail_lists_first_seen_witness:
  "\<exists>d. recipe_detail example_store ''r1'' = Returns (Some d)
      \<and> ingredients d = [''Salt'', ''Red Lentils''] \<and> distinct (ingredients d)"
proof -
  obtain d where d: "recipe_detail example_store ''r1'' = Returns (Some d)"
    using detail_lists_first_seen[of "''r1''" example_store] iri_ok_r1 example_soup_label
    by blast
  show ?thesis
    using detail_lists_first_seen[of "''r1''" example_store d] d example_soup_ingredients
    by auto
qed

lemma query_unchanged: "snd (query g q) = g"
  by (simp add: query_def)

section \<open>Claim C4: an identifier without facts\<close>

text \<open>
  C4 (amended). For an identifier that can be written as an IRI (no white space or
  control character and none of \<open><>"{}|^`\<close> and backslash): if the store holds no
  fact with that subject, \<open>recipe_detail\<close> returns \<open>None\<close>, raises nothing and leaves
  the store as it was. The store is left as it was by every call.
\<close>

theorem detail_unknown_not_found:
  "(iri_ok recipe_uri \<and> (\<forall>p ob. (URIRef recipe_uri, p, ob) \<notin> set g)
      \<longrightarrow> recipe_detail_call g recipe_uri = (Returns None, g))
   \<and> snd (recipe_detail_call g recipe_uri) = g"
proof (intro conjI impI)
  assume a: "iri_ok recipe_uri \<and> (\<forall>p ob. (URIRef recipe_uri, p, ob) \<notin> set g)"
  then have "objects g (URIRef recipe_uri) rdfs_label = []"
    by (auto simp: objects_def filter_empty_conv)
  then have "detail_rows g (URIRef recipe_uri) = []" by (simp add: detail_rows_empty_iff)
  then show "recipe_detail_call g recipe_uri = (Returns None, g)"
    using a by (simp add: recipe_detail_call_def query_def recipe_detail_def iri_ok_def)
next
  show "snd (recipe_detail_call g recipe_uri) = g"
    by (simp add: recipe_detail_call_def query_def)
qed

lemma iri_ok_unknown: "iri_ok ''r9''"
  by code_simp

lemma example_no_r9: "(URIRef ''r9'', p, ob) \<notin> set example_store"
  by (simp add: example_store_def)

theorem detail_unknown_not_found_witness:
  "recipe_detail_call example_store ''r9'' = (Returns None, example_store)"
  using detail_unknown_not_found[of "''r9''" example_store] iri_ok_unknown example_no_r9
  by blast

text \<open>
  C4 as stated fails: the identifier \<open>a b\<close> has no facts in the empty store, and the
  call raises, since \<open><a b>\<close> is no IRI in the query text.
\<close>

theorem detail_malformed_counterexample:
  "recipe_detail_call [] ''a b'' = (Raises ParseException, [])"
  by code_simp

section \<open>The rows of a search\<close>

lemma set_objects [simp]: "set (objects g s p) = {ob. (s, p, ob) \<in> set g}"
  by (force simp: objects_def)

lemma set_subjects [simp]: "set (subjects g p ob) = {s. (s, p, ob) \<in> set g}"
  by (force simp: subjects_def)

lemma objects_Nil_iff: "objects g s p = [] \<longleftrightarrow> (\<forall>ob. (s, p, ob) \<notin> set g)"
  using set_objects[of g s p] by (metis (mono_tags, lifting) Collect_empty_eq set_empty)

lemma set_labels_via: "set (labels_via g s p) = {l. \<exists>x. (s, p, x) \<in> set g \<and> (x, rdfs_label, l) \<in> set g}"
  by (auto simp: labels_via_def)

lemma opt_nonempty [simp]: "opt xs \<noteq> []"
  by (simp add: opt_def)

lemma set_opt: "set (opt xs) = (if xs = [] then {None} else Some ` set xs)"
  by (simp add: opt_def)

lemma in_search_rows:
  "row \<in> set (search_rows g i c d t) \<longleftrightarrow>
     s_recipe row \<in> set (subjects g rdf_type rec_Recipe)
   \<and> s_label row \<in> set (objects g (s_recipe row) rdfs_label)
   \<and> s_url row \<in> set (opt (objects g (s_recipe row) schema_url))
   \<and> s_rating row \<in> set (opt (objects g (s_recipe row) rec_hasRating))
   \<and> s_totalTime row \<in> set (opt (objects g (s_recipe row) rec_hasTotalTime))
   \<and> s_cuisineLabel row \<in> set (opt (labels_via g (s_recipe row) rec_hasCuisine))
   \<and> s_dietLabel row \<in> set (opt (labels_via g (s_recipe row) rec_hasDiet))
   \<and> (\<exists>il \<in> set (filter_join i (labels_via g (s_recipe row) rec_hasIngredient)). ingredient_filter i il)
   \<and> (\<exists>cf \<in> set (filter_join c (labels_via g (s_recipe row) rec_hasCuisine)). label_filter c cf)
   \<and> (\<exists>df \<in> set (filter_join d (labels_via g (s_recipe row) rec_hasDiet)). label_filter d df)
   \<and> time_filter t (s_totalTime row)"
  unfolding search_rows_def
  by (cases row) (simp del: set_subjects set_objects, blast)


lemma ingredient_join_iff:
  "(\<exists>il \<in> set (filter_join i (labels_via g r rec_hasIngredient)). ingredient_filter i il)
     \<longleftrightarrow> (active i \<longrightarrow> has_ingredient_like g r (filter_text i))"
  by (auto simp: filter_join_def ingredient_filter_def has_ingredient_like_def list_ex_iff
      split: option.splits)

lemma label_join_iff:
  "(\<exists>fl \<in> set (filter_join f (labels_via g r p)). label_filter f fl)
     \<longleftrightarrow> (active f \<longrightarrow> has_label_like g r p (filter_text f))"
  by (auto simp: filter_join_def label_filter_def has_label_like_def list_ex_iff)

lemma time_join_iff:
  "(\<exists>tt \<in> set (opt (objects g r rec_hasTotalTime)). time_filter t tt)
     \<longleftrightarrow> (case t of None \<Rightarrow> True | Some b \<Rightarrow> within_time g r b)"
proof (cases t)
  case None
  then show ?thesis using opt_nonempty[of "objects g r rec_hasTotalTime"]
    by (cases "opt (objects g r rec_hasTotalTime)") (auto simp: time_filter_def)
next
  case (Some b)
  show ?thesis unfolding Some
    by (auto simp: set_opt time_filter_def within_time_def list_ex_iff objects_Nil_iff
        split: option.splits if_splits)
qed

lemma row_is_match:
  assumes "row \<in> set (search_rows g i c d t)"
  shows "is_recipe g (s_recipe row) \<and> matches g i c d t (s_recipe row)"
proof -
  note r = assms[unfolded in_search_rows]
  have 1: "is_recipe g (s_recipe row)" using r by (auto simp: is_recipe_def objects_Nil_iff)
  have 2: "active i \<longrightarrow> has_ingredient_like g (s_recipe row) (filter_text i)"
    using r ingredient_join_iff[of i g "s_recipe row"] by blast
  have 3: "active c \<longrightarrow> has_label_like g (s_recipe row) rec_hasCuisine (filter_text c)"
    using r label_join_iff[of c g "s_recipe row" rec_hasCuisine] by blast
  have 4: "active d \<longrightarrow> has_label_like g (s_recipe row) rec_hasDiet (filter_text d)"
    using r label_join_iff[of d g "s_recipe row" rec_hasDiet] by blast
  have 5: "case t of None \<Rightarrow> True | Some b \<Rightarrow> within_time g (s_recipe row) b"
    using r time_join_iff[of g "s_recipe row" t] by blast
  show ?thesis using 1 2 3 4 5 by (simp add: matches_def)
qed

lemma match_has_row:
  assumes "is_recipe g r" and "matches g i c d t r"
    and "cl \<in> set (opt (labels_via g r rec_hasCuisine))"
    and "dl \<in> set (opt (labels_via g r rec_hasDiet))"
  shows "\<exists>row \<in> set (search_rows g i c d t).
           s_recipe row = r \<and> s_cuisineLabel row = cl \<and> s_dietLabel row = dl"
proof -
  obtain l where l: "l \<in> set (objects g r rdfs_label)"
    using assms(1) unfolding is_recipe_def by (cases "objects g r rdfs_label") auto
  obtain u where u: "u \<in> set (opt (objects g r schema_url))"
    using opt_nonempty[of "objects g r schema_url"] by (cases "opt (objects g r schema_url)") auto
  obtain ra where ra: "ra \<in> set (opt (objects g r rec_hasRating))"
    using opt_nonempty[of "objects g r rec_hasRating"] by (cases "opt (objects g r rec_hasRating)") auto
  obtain tt where tt: "tt \<in> set (opt (objects g r rec_hasTotalTime))" "time_filter t tt"
    using assms(2) time_join_iff[of g r t] by (auto simp: matches_def)
  let ?row = "\<lparr>s_recipe = r, s_label = l, s_url = u, s_rating = ra, s_totalTime = tt,
       s_cuisineLabel = cl, s_dietLabel = dl\<rparr>"
  have typed: "r \<in> set (subjects g rdf_type rec_Recipe)"
    using assms(1) by (simp add: is_recipe_def)
  have f1: "\<exists>il \<in> set (filter_join i (labels_via g r rec_hasIngredient)). ingredient_filter i il"
    using assms(2) ingredient_join_iff[of i g r] by (simp add: matches_def)
  have f2: "\<exists>cf \<in> set (filter_join c (labels_via g r rec_hasCuisine)). label_filter c cf"
    using assms(2) label_join_iff[of c g r rec_hasCuisine] by (simp add: matches_def)
  have f3: "\<exists>df \<in> set (filter_join d (labels_via g r rec_hasDiet)). label_filter d df"
    using assms(2) label_join_iff[of d g r rec_hasDiet] by (simp add: matches_def)
  have "?row \<in> set (search_rows g i c d t)"
    unfolding in_search_rows using typed l u ra tt assms(3,4) f1 f2 f3 by simp
  then show ?thesis by (intro bexI[of _ ?row]) simp_all
qed

lemma row_recipes:
  "s_recipe ` set (search_rows g i c d t) = {r. is_recipe g r \<and> matches g i c d t r}"
proof (intro set_eqI iffI)
  fix r assume "r \<in> s_recipe ` set (search_rows g i c d t)"
  then show "r \<in> {r. is_recipe g r \<and> matches g i c d t r}" using row_is_match by auto
next
  fix r assume "r \<in> {r. is_recipe g r \<and> matches g i c d t r}"
  then have a: "is_recipe g r" "matches g i c d t r" by auto
  obtain cl where cl: "cl \<in> set (opt (labels_via g r rec_hasCuisine))"
    using opt_nonempty[of "labels_via g r rec_hasCuisine"]
    by (cases "opt (labels_via g r rec_hasCuisine)") auto
  obtain dl where dl: "dl \<in> set (opt (labels_via g r rec_hasDiet))"
    using opt_nonempty[of "labels_via g r rec_hasDiet"]
    by (cases "opt (labels_via g r rec_hasDiet)") auto
  from match_has_row[OF a cl dl] show "r \<in> s_recipe ` set (search_rows g i c d t)" by force
qed

section \<open>The grouping loop\<close>

lemma keys_update_entry [simp]: "map fst (update_entry d k f) = map fst d"
  by (induction d) (auto simp: update_entry_def)

lemma map_of_update_entry:
  "map_of (update_entry d k f) k' = (if k' = k then map_option f (map_of d k') else map_of d k')"
  by (induction d) (auto simp: update_entry_def)

lemma column_Nil [simp]: "column f [] = []"
  by (simp add: column_def)

lemma column_Cons:
  "column f (row # rows) =
     (case str_value (f row) of None \<Rightarrow> column f rows | Some x \<Rightarrow> x # column f rows)"
  by (cases "str_value (f row)") (simp_all add: column_def)

lemma in_column: "x \<in> set (column f rows) \<longleftrightarrow> (\<exists>row \<in> set rows. str_value (f row) = Some x)"
  by (induction rows) (auto simp: column_Cons split: option.splits)

lemma set_add_value:
  "set (add_value xs v) = set xs \<union> (case str_value v of None \<Rightarrow> {} | Some x \<Rightarrow> {x})"
  by (auto simp: add_value_def append_new_def split: option.splits)

lemma add_row_eq:
  "add_row d row =
     update_entry (if recipe_key row \<in> set (map fst d) then d
                   else d @ [(recipe_key row, new_entry row)])
       (recipe_key row) (row_update row)"
  by (simp add: add_row_def Let_def recipe_key_def row_update_def)

lemma keys_add_row:
  "map fst (add_row d row) =
     (if recipe_key row \<in> set (map fst d) then map fst d else map fst d @ [recipe_key row])"
  by (simp add: add_row_eq)

lemma map_of_add_row:
  "map_of (add_row d row) k =
     (if k = recipe_key row
      then Some (row_update row (case map_of d k of None \<Rightarrow> new_entry row | Some e \<Rightarrow> e))
      else map_of d k)"
proof (cases "recipe_key row \<in> set (map fst d)")
  case True
  then obtain e where "map_of d (recipe_key row) = Some e"
    by (metis map_of_eq_None_iff not_Some_eq set_map)
  then show ?thesis using True by (simp add: add_row_eq map_of_update_entry)
next
  case False
  then have n: "map_of d (recipe_key row) = None" by (simp add: map_of_eq_None_iff)
  show ?thesis using False n
    by (auto simp: add_row_eq map_of_update_entry map_add_def split: option.splits)
qed

lemma labels_add_row:
  "map (\<lambda>(k, e). label e) (add_row d row) =
     (if recipe_key row \<in> set (map fst d) then map (\<lambda>(k, e). label e) d
      else map (\<lambda>(k, e). label e) d @ [node_str (s_label row)])"
proof -
  have u: "\<And>d'. map (\<lambda>(k, e). label e) (update_entry d' (recipe_key row) (row_update row))
      = map (\<lambda>(k, e). label e) d'"
    by (auto simp: update_entry_def row_update_def)
  show ?thesis unfolding add_row_eq u by (simp add: new_entry_def)
qed

lemma uris_add_row:
  assumes "\<forall>(k, e) \<in> set d. uri e = k"
  shows "\<forall>(k, e) \<in> set (add_row d row). uri e = k"
  using assms unfolding add_row_eq
  by (auto simp: update_entry_def row_update_def new_entry_def recipe_key_def split: if_splits)

lemma group_keys:
  "map fst (foldl add_row d rows) = map fst d @ map recipe_key (firsts (set (map fst d)) rows)"
proof (induction rows arbitrary: d)
  case Nil
  then show ?case by simp
next
  case (Cons row rows)
  show ?case using Cons.IH[of "add_row d row"] by (simp add: keys_add_row)
qed

lemma group_labels:
  "map (\<lambda>(k, e). label e) (foldl add_row d rows)
     = map (\<lambda>(k, e). label e) d @ map (\<lambda>row. node_str (s_label row)) (firsts (set (map fst d)) rows)"
proof (induction rows arbitrary: d)
  case Nil
  then show ?case by simp
next
  case (Cons row rows)
  show ?case using Cons.IH[of "add_row d row"] by (simp add: keys_add_row labels_add_row)
qed

lemma group_uris:
  assumes "\<forall>(k, e) \<in> set d. uri e = k"
  shows "\<forall>(k, e) \<in> set (foldl add_row d rows). uri e = k"
  using assms
proof (induction rows arbitrary: d)
  case Nil
  then show ?case by simp
next
  case (Cons row rows)
  show ?case using Cons.IH[OF uris_add_row[OF Cons.prems, of row]] by simp
qed

lemma firsts_keys: "recipe_key ` set (firsts seen rows) = recipe_key ` set rows - seen"
  by (induction rows arbitrary: seen) auto

lemma firsts_subset: "set (firsts seen rows) \<subseteq> set rows"
  by (induction rows arbitrary: seen) auto

lemma firsts_distinct:
  "distinct (map recipe_key (firsts seen rows))"
proof (induction rows arbitrary: seen)
  case Nil
  then show ?case by simp
next
  case (Cons row rows)
  show ?case using Cons.IH firsts_keys[of "insert (recipe_key row) seen" rows] by auto
qed

lemma firsts_sorted:
  "sorted (map f rows) \<Longrightarrow> sorted (map f (firsts seen rows))"
proof (induction rows arbitrary: seen)
  case Nil
  then show ?case by simp
next
  case (Cons row rows)
  then show ?case using firsts_subset[of "insert (recipe_key row) seen" rows] by auto
qed

lemma group_cuisines:
  assumes "map_of (foldl add_row d rows) k = Some e"
  shows "set (cuisines e) = (case map_of d k of None \<Rightarrow> {} | Some e0 \<Rightarrow> set (cuisines e0))
            \<union> set (column s_cuisineLabel (filter (\<lambda>row. recipe_key row = k) rows))
       \<and> set (diets e) = (case map_of d k of None \<Rightarrow> {} | Some e0 \<Rightarrow> set (diets e0))
            \<union> set (column s_dietLabel (filter (\<lambda>row. recipe_key row = k) rows))"
  using assms
proof (induction rows arbitrary: d)
  case Nil
  then show ?case by simp
next
  case (Cons row rows)
  have a: "map_of (foldl add_row (add_row d row) rows) k = Some e" using Cons.prems by simp
  note ih = Cons.IH[OF a]
  show ?case
  proof (cases "k = recipe_key row")
    case True
    show ?thesis using ih True
      by (auto simp: map_of_add_row row_update_def set_add_value new_entry_def column_Cons
          split: option.splits)
  next
    case False
    then show ?thesis using ih by (simp add: map_of_add_row)
  qed
qed

section \<open>What a search returns\<close>

lemma order_rows_Returns:
  assumes "order_rows rows = Returns rows'"
  shows "rows' = sort_key label_key rows
       \<and> (length rows \<le> 1 \<or> (\<forall>row \<in> set rows. lcase (s_label row) \<noteq> None))"
  using assms by (auto simp: order_rows_def list_ex_iff split: if_splits)

lemma order_rows_cases: "order_rows rows = Raises TypeError \<or> order_rows rows = Returns (sort_key label_key rows)"
  by (simp add: order_rows_def)

lemma search_Returns:
  assumes "search so g i c d t = Returns res"
  shows "order_rows (search_rows g i c d t) = Returns (sort_key label_key (search_rows g i c d t))
       \<and> res = summaries so (group_rows (sort_key label_key (search_rows g i c d t)))"
  using assms order_rows_cases[of "search_rows g i c d t"]
  by (auto simp: search_def split: if_splits outcome.splits)

lemma texts_ok:
  assumes "text_ok i" "text_ok c" "text_ok d"
  shows "\<not> texts_close [i, c, d] \<and> \<not> texts_break [i, c, d]"
  using assms by (simp add: text_ok_def texts_close_def texts_break_def)

lemma plain_rows:
  assumes "recipe_labels_plain g" "row \<in> set (search_rows g i c d t)"
  shows "lcase (s_label row) \<noteq> None"
proof -
  have "(s_recipe row, rdf_type, rec_Recipe) \<in> set g" "(s_recipe row, rdfs_label, s_label row) \<in> set g"
    using assms(2) unfolding in_search_rows by simp_all
  then show ?thesis using assms(1) unfolding recipe_labels_plain_def list_all_iff by fastforce
qed

lemma search_total:
  assumes "text_ok i" "text_ok c" "text_ok d" "recipe_labels_plain g"
  shows "\<exists>res. search so g i c d t = Returns res"
proof -
  have "\<not> list_ex (\<lambda>row. lcase (s_label row) = None) (search_rows g i c d t)"
    using plain_rows[OF assms(4)] by (auto simp: list_ex_iff)
  then have "order_rows (search_rows g i c d t) = Returns (sort_key label_key (search_rows g i c d t))"
    by (simp add: order_rows_def)
  then show ?thesis using texts_ok[OF assms(1,2,3)] by (simp add: search_def)
qed

lemma group_rows_uris: "\<forall>(k, e) \<in> set (group_rows rows). uri e = k"
  unfolding group_rows_def by (rule group_uris) simp

lemma group_rows_keys: "map fst (group_rows rows) = map recipe_key (firsts {} rows)"
  unfolding group_rows_def using group_keys[of "[]" rows] by simp

lemma group_rows_distinct: "distinct (map fst (group_rows rows))"
  unfolding group_rows_keys by (rule firsts_distinct)

lemma group_rows_key_set: "set (map fst (group_rows rows)) = recipe_key ` set rows"
  unfolding group_rows_keys using firsts_keys[of "{}" rows] by simp

lemma group_rows_labels:
  "map (\<lambda>(k, e). label e) (group_rows rows) = map (\<lambda>row. node_str (s_label row)) (firsts {} rows)"
  unfolding group_rows_def using group_labels[of "[]" rows] by simp

lemma summaries_uri: "map uri (summaries so d) = map (\<lambda>(k, e). uri e) d"
  by (auto simp: summaries_def)

lemma summaries_label: "map label (summaries so d) = map (\<lambda>(k, e). label e) d"
  by (auto simp: summaries_def)

lemma search_uris:
  assumes "search so g i c d t = Returns res"
  shows "set (map uri res) = node_str ` {r. is_recipe g r \<and> matches g i c d t r}"
proof -
  let ?rows = "sort_key label_key (search_rows g i c d t)"
  have res: "res = summaries so (group_rows ?rows)" using search_Returns[OF assms] by simp
  have "map (\<lambda>(k, e). uri e) (group_rows ?rows) = map fst (group_rows ?rows)"
    using group_rows_uris[of ?rows] by (auto simp: case_prod_beta)
  then have "set (map uri res) = recipe_key ` set ?rows"
    unfolding res summaries_uri using group_rows_key_set[of ?rows] by simp
  also have "\<dots> = node_str ` s_recipe ` set (search_rows g i c d t)"
    by (auto simp: recipe_key_def)
  finally show ?thesis unfolding row_recipes .
qed

lemma plain_key:
  "lcase (s_label row) \<noteq> None \<Longrightarrow> label_key row = lower (node_str (s_label row))"
  by (cases "s_label row" rule: lcase.cases) (simp_all add: label_key_def)

lemma length_firsts: "length (firsts seen rows) \<le> length rows"
  by (induction rows arbitrary: seen) (auto simp: le_SucI)

lemma short_sorted: "length xs \<le> 1 \<Longrightarrow> sorted xs"
  by (cases xs) auto

lemma search_sorted:
  assumes "search so g i c d t = Returns res"
  shows "sorted (map (\<lambda>s. lower (label s)) res)"
proof -
  let ?rows = "search_rows g i c d t"
  let ?sorted = "sort_key label_key ?rows"
  have res: "res = summaries so (group_rows ?sorted)" using search_Returns[OF assms] by simp
  have m: "map (\<lambda>s. lower (label s)) res = map (\<lambda>row. lower (node_str (s_label row))) (firsts {} ?sorted)"
  proof -
    have "map (\<lambda>s. lower (label s)) res = map lower (map label res)" by simp
    also have "\<dots> = map lower (map (\<lambda>row. node_str (s_label row)) (firsts {} ?sorted))"
      unfolding res summaries_label group_rows_labels ..
    finally show ?thesis by simp
  qed
  from order_rows_Returns[of ?rows ?sorted] search_Returns[OF assms]
  consider "length ?rows \<le> 1" | "\<forall>row \<in> set ?rows. lcase (s_label row) \<noteq> None" by blast
  then show ?thesis
  proof cases
    case 1
    then have "length (firsts {} ?sorted) \<le> 1"
      using length_firsts[of "{}" ?sorted] by simp
    then have "length (map (\<lambda>s. lower (label s)) res) \<le> 1" unfolding m by simp
    then show ?thesis by (rule short_sorted)
  next
    case 2
    have "\<forall>row \<in> set (firsts {} ?sorted). label_key row = lower (node_str (s_label row))"
      using 2 firsts_subset[of "{}" ?sorted] plain_key by auto
    then have e: "map (\<lambda>row. lower (node_str (s_label row))) (firsts {} ?sorted)
        = map label_key (firsts {} ?sorted)" by (intro map_cong) simp_all
    have "sorted (map label_key (firsts {} ?sorted))"
      by (rule firsts_sorted) simp
    then show ?thesis unfolding m e .
  qed
qed

lemma in_opt_Some: "Some x \<in> set (opt xs) \<longleftrightarrow> x \<in> set xs"
  by (auto simp: opt_def)

lemma group_rows_entry:
  assumes "(k, e) \<in> set (group_rows rows)"
  shows "set (cuisines e) = set (column s_cuisineLabel (filter (\<lambda>row. recipe_key row = k) rows))
       \<and> set (diets e) = set (column s_dietLabel (filter (\<lambda>row. recipe_key row = k) rows))"
proof -
  have "map_of (group_rows rows) k = Some e"
    using assms group_rows_distinct[of rows] by simp
  from group_cuisines[OF this[unfolded group_rows_def]] show ?thesis by simp
qed

lemma summaries_mem:
  "s \<in> set (summaries so d) \<longleftrightarrow>
     (\<exists>(k, e) \<in> set d. s = e\<lparr>cuisines := so (cuisines e), diets := so (diets e)\<rparr>)"
  by (auto simp: summaries_def)

text \<open>The lists a summary shows: the true labels seen in the rows of its key.\<close>

lemma search_display:
  assumes "search so g i c d t = Returns res" and "enumerates so"
  shows "(\<forall>r. is_recipe g r \<and> matches g i c d t r \<longrightarrow>
            (\<exists>s \<in> set res. uri s = node_str r
               \<and> (\<forall>l \<in> set (labels_via g r rec_hasCuisine). truthy l \<longrightarrow> node_str l \<in> set (cuisines s))
               \<and> (\<forall>l \<in> set (labels_via g r rec_hasDiet). truthy l \<longrightarrow> node_str l \<in> set (diets s))))"
proof (intro allI impI)
  fix r assume r: "is_recipe g r \<and> matches g i c d t r"
  let ?rows = "search_rows g i c d t"
  let ?sorted = "sort_key label_key ?rows"
  have res: "res = summaries so (group_rows ?sorted)" using search_Returns[OF assms(1)] by simp
  have "r \<in> s_recipe ` set ?rows" unfolding row_recipes using r by simp
  then have "node_str r \<in> set (map fst (group_rows ?sorted))"
    unfolding group_rows_key_set by (auto simp: recipe_key_def)
  then obtain e where e: "(node_str r, e) \<in> set (group_rows ?sorted)" by auto
  let ?s = "e\<lparr>cuisines := so (cuisines e), diets := so (diets e)\<rparr>"
  have s_in: "?s \<in> set res" unfolding res summaries_mem using e by blast
  have u: "uri ?s = node_str r" using group_rows_uris[of ?sorted] e by auto
  note ge = group_rows_entry[OF e]
  have cs: "\<forall>l \<in> set (labels_via g r rec_hasCuisine). truthy l \<longrightarrow> node_str l \<in> set (cuisines ?s)"
  proof (intro ballI impI)
    fix l assume l: "l \<in> set (labels_via g r rec_hasCuisine)" "truthy l"
    obtain dl where dl: "dl \<in> set (opt (labels_via g r rec_hasDiet))"
      using opt_nonempty[of "labels_via g r rec_hasDiet"]
      by (cases "opt (labels_via g r rec_hasDiet)") auto
    have "Some l \<in> set (opt (labels_via g r rec_hasCuisine))" using l(1) by (simp add: in_opt_Some)
    from match_has_row[OF conjunct1[OF r] conjunct2[OF r] this dl]
    obtain row where row: "row \<in> set ?rows" "s_recipe row = r" "s_cuisineLabel row = Some l" by blast
    have "node_str l \<in> set (column s_cuisineLabel (filter (\<lambda>row. recipe_key row = node_str r) ?sorted))"
      unfolding in_column using row l(2)
      by (intro bexI[of _ row]) (simp_all add: str_value_def recipe_key_def)
    then show "node_str l \<in> set (cuisines ?s)"
      using ge assms(2) by (simp add: enumerates_def)
  qed
  have ds: "\<forall>l \<in> set (labels_via g r rec_hasDiet). truthy l \<longrightarrow> node_str l \<in> set (diets ?s)"
  proof (intro ballI impI)
    fix l assume l: "l \<in> set (labels_via g r rec_hasDiet)" "truthy l"
    obtain cl where cl: "cl \<in> set (opt (labels_via g r rec_hasCuisine))"
      using opt_nonempty[of "labels_via g r rec_hasCuisine"]
      by (cases "opt (labels_via g r rec_hasCuisine)") auto
    have "Some l \<in> set (opt (labels_via g r rec_hasDiet))" using l(1) by (simp add: in_opt_Some)
    from match_has_row[OF conjunct1[OF r] conjunct2[OF r] cl this]
    obtain row where row: "row \<in> set ?rows" "s_recipe row = r" "s_dietLabel row = Some l" by blast
    have "node_str l \<in> set (column s_dietLabel (filter (\<lambda>row. recipe_key row = node_str r) ?sorted))"
      unfolding in_column using row l(2)
      by (intro bexI[of _ row]) (simp_all add: str_value_def recipe_key_def)
    then show "node_str l \<in> set (diets ?s)"
      using ge assms(2) by (simp add: enumerates_def)
  qed
  show "\<exists>s \<in> set res. uri s = node_str r
               \<and> (\<forall>l \<in> set (labels_via g r rec_hasCuisine). truthy l \<longrightarrow> node_str l \<in> set (cuisines s))
               \<and> (\<forall>l \<in> set (labels_via g r rec_hasDiet). truthy l \<longrightarrow> node_str l \<in> set (diets s))"
    using s_in u cs ds by blast
qed

text \<open>And nothing else: a shown label is a true label of a matching recipe with that key.\<close>

lemma search_display_only:
  assumes "search so g i c d t = Returns res" and "enumerates so" and "s \<in> set res"
  shows "(\<forall>x \<in> set (cuisines s). \<exists>r l. is_recipe g r \<and> matches g i c d t r \<and> node_str r = uri s
             \<and> l \<in> set (labels_via g r rec_hasCuisine) \<and> truthy l \<and> x = node_str l)
       \<and> (\<forall>x \<in> set (diets s). \<exists>r l. is_recipe g r \<and> matches g i c d t r \<and> node_str r = uri s
             \<and> l \<in> set (labels_via g r rec_hasDiet) \<and> truthy l \<and> x = node_str l)"
proof -
  let ?rows = "search_rows g i c d t"
  let ?sorted = "sort_key label_key ?rows"
  have res: "res = summaries so (group_rows ?sorted)" using search_Returns[OF assms(1)] by simp
  obtain k e where e: "(k, e) \<in> set (group_rows ?sorted)"
      "s = e\<lparr>cuisines := so (cuisines e), diets := so (diets e)\<rparr>"
    using assms(3) unfolding res summaries_mem by blast
  have u: "uri s = k" using group_rows_uris[of ?sorted] e by auto
  note ge = group_rows_entry[OF e(1)]
  have sv: "\<And>v x. str_value v = Some x \<Longrightarrow> \<exists>l. v = Some l \<and> truthy l \<and> x = node_str l"
    by (auto simp: str_value_def split: option.splits if_splits)
  show ?thesis
  proof (intro conjI ballI)
    fix x assume "x \<in> set (cuisines s)"
    then have "x \<in> set (column s_cuisineLabel (filter (\<lambda>row. recipe_key row = k) ?sorted))"
      using ge e(2) assms(2) by (simp add: enumerates_def)
    then obtain row where row: "row \<in> set ?rows" "recipe_key row = k" "str_value (s_cuisineLabel row) = Some x"
      unfolding in_column by auto
    from sv[OF row(3)] obtain l where l: "s_cuisineLabel row = Some l" "truthy l" "x = node_str l" by blast
    have "l \<in> set (labels_via g (s_recipe row) rec_hasCuisine)"
      using row(1) l(1) unfolding in_search_rows by (simp add: in_opt_Some)
    then show "\<exists>r l. is_recipe g r \<and> matches g i c d t r \<and> node_str r = uri s
             \<and> l \<in> set (labels_via g r rec_hasCuisine) \<and> truthy l \<and> x = node_str l"
      using row_is_match[OF row(1)] row(2) l u by (auto simp: recipe_key_def)
  next
    fix x assume "x \<in> set (diets s)"
    then have "x \<in> set (column s_dietLabel (filter (\<lambda>row. recipe_key row = k) ?sorted))"
      using ge e(2) assms(2) by (simp add: enumerates_def)
    then obtain row where row: "row \<in> set ?rows" "recipe_key row = k" "str_value (s_dietLabel row) = Some x"
      unfolding in_column by auto
    from sv[OF row(3)] obtain l where l: "s_dietLabel row = Some l" "truthy l" "x = node_str l" by blast
    have "l \<in> set (labels_via g (s_recipe row) rec_hasDiet)"
      using row(1) l(1) unfolding in_search_rows by (simp add: in_opt_Some)
    then show "\<exists>r l. is_recipe g r \<and> matches g i c d t r \<and> node_str r = uri s
             \<and> l \<in> set (labels_via g r rec_hasDiet) \<and> truthy l \<and> x = node_str l"
      using row_is_match[OF row(1)] row(2) l u by (auto simp: recipe_key_def)
  qed
qed

section \<open>Claim C1: the ingredient filter\<close>

lemma matches_ingredient_only:
  "s \<noteq> [] \<Longrightarrow> matches g (Some s) None None None r \<longleftrightarrow> has_ingredient_like g r s"
  by (simp add: matches_def active_def filter_text_def)

lemma matches_cuisine_only:
  "c \<noteq> [] \<Longrightarrow> matches g None (Some c) None None r \<longleftrightarrow> has_label_like g r rec_hasCuisine c"
  by (simp add: matches_def active_def filter_text_def)

lemma matches_diet_only:
  "c \<noteq> [] \<Longrightarrow> matches g None None (Some c) None r \<longleftrightarrow> has_label_like g r rec_hasDiet c"
  by (simp add: matches_def active_def filter_text_def)



lemma text_ok_None: "text_ok None"
  by (simp add: text_ok_def filter_text_def)


lemma example_plain: "recipe_labels_plain example_store"
  by code_simp

lemma text_ok_lentil: "text_ok (Some ''LENTIL'')"
  by code_simp

lemma text_ok_indian: "text_ok (Some ''indian'')"
  by code_simp

lemma enumerates_remdups: "enumerates remdups"
  by (simp add: enumerates_def)

text \<open>
  C1 (amended). For a filter text that is not empty and has no double quote, backslash or
  line break: when \<open>search\<close> with the ingredient filter returns, which it does in a store
  whose recipe labels are string literals, it returns exactly the recipes that have an
  ingredient whose label is a string containing the text, without regard to case.
\<close>

theorem ingredient_filter_exact:
  assumes "s \<noteq> []" and "text_ok (Some s)"
  shows "(recipe_labels_plain g \<longrightarrow> (\<exists>res. search so g (Some s) None None None = Returns res))
       \<and> (search so g (Some s) None None None = Returns res \<longrightarrow>
            set (map uri res) = node_str ` {r. is_recipe g r \<and> has_ingredient_like g r s})"
proof (intro conjI impI)
  assume "recipe_labels_plain g"
  then show "\<exists>res. search so g (Some s) None None None = Returns res"
    using search_total[OF assms(2) text_ok_None text_ok_None] by blast
next
  assume "search so g (Some s) None None None = Returns res"
  from search_uris[OF this] show "set (map uri res) = node_str ` {r. is_recipe g r \<and> has_ingredient_like g r s}"
    by (simp add: matches_ingredient_only[OF assms(1)])
qed

lemma example_lentil:
  "search remdups example_store (Some ''LENTIL'') None None None =
     Returns [\<lparr>uri = ''r1'', label = ''Lentil Soup'', url = None, rating = None,
               total_time = Some (Literal (LInt 30)), cuisines = [''Indian''],
               diets = [''Vegan'', ''GlutenFree'']\<rparr>]"
  by code_simp

theorem ingredient_filter_exact_witness:
  "search remdups example_store (Some ''LENTIL'') None None None =
     Returns [\<lparr>uri = ''r1'', label = ''Lentil Soup'', url = None, rating = None,
               total_time = Some (Literal (LInt 30)), cuisines = [''Indian''],
               diets = [''Vegan'', ''GlutenFree'']\<rparr>]
   \<and> {''r1''} = node_str ` {r. is_recipe example_store r \<and> has_ingredient_like example_store r ''LENTIL''}"
  using ingredient_filter_exact[of "''LENTIL''" example_store remdups
      "[\<lparr>uri = ''r1'', label = ''Lentil Soup'', url = None, rating = None,
               total_time = Some (Literal (LInt 30)), cuisines = [''Indian''],
               diets = [''Vegan'', ''GlutenFree'']\<rparr>]"]
    text_ok_lentil example_lentil example_plain
  by simp

text \<open>
  C1 as stated fails on the empty filter text: \<open>if ingredient:\<close> takes it for no filter,
  and the stew, which has no ingredient, is returned.
\<close>

theorem empty_ingredient_filter_counterexample:
  "search remdups example_store (Some []) None None None =
     Returns [\<lparr>uri = ''r2'', label = ''apple pie'', url = None, rating = None,
               total_time = None, cuisines = [''French''], diets = []\<rparr>,
              \<lparr>uri = ''r3'', label = ''Beef Stew'', url = None, rating = None,
               total_time = Some (Literal (LInt 120)), cuisines = [], diets = []\<rparr>,
              \<lparr>uri = ''r1'', label = ''Lentil Soup'', url = None, rating = None,
               total_time = Some (Literal (LInt 30)), cuisines = [''Indian''],
               diets = [''Vegan'', ''GlutenFree'']\<rparr>]
   \<and> labels_via example_store (URIRef ''r3'') rec_hasIngredient = []"
  by code_simp

section \<open>Claim C2: filtering and display are separate joins\<close>

text \<open>
  C2 (amended). For a filter text that is not empty and has no double quote, backslash or
  line break: when \<open>search\<close> with the cuisine filter returns, which it does in a store
  whose recipe labels are string literals, it returns exactly the recipes that have a
  cuisine whose label is a string equal to the text, without regard to case; and the
  cuisines of the summary of a matching recipe hold every cuisine label of that recipe
  that is true in Python (a label that is not the empty string), not only the one that
  matched, as its diets hold every such diet label. The same holds for the diet filter.
\<close>

theorem label_filter_independent_of_display:
  assumes "c \<noteq> []" and "text_ok (Some c)" and "enumerates so"
  shows "(recipe_labels_plain g \<longrightarrow>
            (\<exists>res. search so g None (Some c) None None = Returns res)
          \<and> (\<exists>res. search so g None None (Some c) None = Returns res))
       \<and> (search so g None (Some c) None None = Returns res \<longrightarrow>
            set (map uri res) = node_str ` {r. is_recipe g r \<and> has_label_like g r rec_hasCuisine c}
          \<and> (\<forall>r. is_recipe g r \<and> has_label_like g r rec_hasCuisine c \<longrightarrow>
                (\<exists>s \<in> set res. uri s = node_str r
                   \<and> (\<forall>l \<in> set (labels_via g r rec_hasCuisine). truthy l \<longrightarrow> node_str l \<in> set (cuisines s))
                   \<and> (\<forall>l \<in> set (labels_via g r rec_hasDiet). truthy l \<longrightarrow> node_str l \<in> set (diets s)))))
       \<and> (search so g None None (Some c) None = Returns res' \<longrightarrow>
            set (map uri res') = node_str ` {r. is_recipe g r \<and> has_label_like g r rec_hasDiet c}
          \<and> (\<forall>r. is_recipe g r \<and> has_label_like g r rec_hasDiet c \<longrightarrow>
                (\<exists>s \<in> set res'. uri s = node_str r
                   \<and> (\<forall>l \<in> set (labels_via g r rec_hasCuisine). truthy l \<longrightarrow> node_str l \<in> set (cuisines s))
                   \<and> (\<forall>l \<in> set (labels_via g r rec_hasDiet). truthy l \<longrightarrow> node_str l \<in> set (diets s)))))"
proof (intro conjI impI)
  assume p: "recipe_labels_plain g"
  show "\<exists>res. search so g None (Some c) None None = Returns res"
    using search_total[OF text_ok_None assms(2) text_ok_None p] by blast
  show "\<exists>res. search so g None None (Some c) None = Returns res"
    using search_total[OF text_ok_None text_ok_None assms(2) p] by blast
next
  assume a: "search so g None (Some c) None None = Returns res"
  show "set (map uri res) = node_str ` {r. is_recipe g r \<and> has_label_like g r rec_hasCuisine c}"
    using search_uris[OF a] by (simp add: matches_cuisine_only[OF assms(1)])
  show "\<forall>r. is_recipe g r \<and> has_label_like g r rec_hasCuisine c \<longrightarrow>
                (\<exists>s \<in> set res. uri s = node_str r
                   \<and> (\<forall>l \<in> set (labels_via g r rec_hasCuisine). truthy l \<longrightarrow> node_str l \<in> set (cuisines s))
                   \<and> (\<forall>l \<in> set (labels_via g r rec_hasDiet). truthy l \<longrightarrow> node_str l \<in> set (diets s)))"
    using search_display[OF a assms(3)] by (simp add: matches_cuisine_only[OF assms(1)])
next
  assume a: "search so g None None (Some c) None = Returns res'"
  show "set (map uri res') = node_str ` {r. is_recipe g r \<and> has_label_like g r rec_hasDiet c}"
    using search_uris[OF a] by (simp add: matches_diet_only[OF assms(1)])
  show "\<forall>r. is_recipe g r \<and> has_label_like g r rec_hasDiet c \<longrightarrow>
                (\<exists>s \<in> set res'. uri s = node_str r
                   \<and> (\<forall>l \<in> set (labels_via g r rec_hasCuisine). truthy l \<longrightarrow> node_str l \<in> set (cuisines s))
                   \<and> (\<forall>l \<in> set (labels_via g r rec_hasDiet). truthy l \<longrightarrow> node_str l \<in> set (diets s)))"
    using search_display[OF a assms(3)] by (simp add: matches_diet_only[OF assms(1)])
qed

theorem label_filter_independent_of_display_witness:
  "(\<exists>res. search remdups example_store None (Some ''indian'') None None = Returns res
      \<and> set (map uri res)
          = node_str ` {r. is_recipe example_store r \<and> has_label_like example_store r rec_hasCuisine ''indian''})
   \<and> (\<exists>res. search remdups example_store None None (Some ''indian'') None = Returns res
      \<and> set (map uri res)
          = node_str ` {r. is_recipe example_store r \<and> has_label_like example_store r rec_hasDiet ''indian''})"
proof -
  have c: "''indian'' \<noteq> []" by simp
  note th = label_filter_independent_of_display[OF c text_ok_indian enumerates_remdups, of example_store]
  from th[THEN conjunct1, rule_format, OF example_plain]
  obtain res res' where r: "search remdups example_store None (Some ''indian'') None None = Returns res"
    and r': "search remdups example_store None None (Some ''indian'') None = Returns res'"
    by (elim conjE exE)
  from th[of res res', THEN conjunct2, THEN conjunct1, rule_format, OF r]
  have 1: "set (map uri res)
      = node_str ` {r. is_recipe example_store r \<and> has_label_like example_store r rec_hasCuisine ''indian''}"
    by (rule conjunct1)
  from th[of res res', THEN conjunct2, THEN conjunct2, rule_format, OF r']
  have 2: "set (map uri res')
      = node_str ` {r. is_recipe example_store r \<and> has_label_like example_store r rec_hasDiet ''indian''}"
    by (rule conjunct1)
  show ?thesis
  proof (intro conjI)
    show "\<exists>res. search remdups example_store None (Some ''indian'') None None = Returns res
      \<and> set (map uri res)
          = node_str ` {r. is_recipe example_store r \<and> has_label_like example_store r rec_hasCuisine ''indian''}"
      using r 1 by (intro exI[of _ res] conjI)
    show "\<exists>res. search remdups example_store None None (Some ''indian'') None = Returns res
      \<and> set (map uri res)
          = node_str ` {r. is_recipe example_store r \<and> has_label_like example_store r rec_hasDiet ''indian''}"
      using r' 2 by (intro exI[of _ res'] conjI)
  qed
qed

text \<open>
  C2 as stated fails on the empty filter text: \<open>if cuisine:\<close> takes it for no filter, and
  the stew, which has no cuisine, is returned.
\<close>

theorem empty_cuisine_filter_counterexample:
  "search remdups example_store None (Some []) None None =
     Returns [\<lparr>uri = ''r2'', label = ''apple pie'', url = None, rating = None,
               total_time = None, cuisines = [''French''], diets = []\<rparr>,
              \<lparr>uri = ''r3'', label = ''Beef Stew'', url = None, rating = None,
               total_time = Some (Literal (LInt 120)), cuisines = [], diets = []\<rparr>,
              \<lparr>uri = ''r1'', label = ''Lentil Soup'', url = None, rating = None,
               total_time = Some (Literal (LInt 30)), cuisines = [''Indian''],
               diets = [''Vegan'', ''GlutenFree'']\<rparr>]
   \<and> labels_via example_store (URIRef ''r3'') rec_hasCuisine = []"
  by code_simp

section \<open>Claim C5: the time bound and the conjunction of filters\<close>




section \<open>Claim C8: order and repeatability\<close>

text \<open>
  C8. The summaries \<open>search\<close> returns are in ascending order of their lower-cased
  labels. A call leaves the store as it was, so a second call with the same arguments
  returns the same sequence. \<open>search\<close> returns when the filter texts can be written in
  a string literal and the recipe labels are string literals.
\<close>

theorem search_ordered_and_repeatable:
  "(search so g i c d t = Returns res \<longrightarrow> sorted (map (\<lambda>s. lower (label s)) res))
   \<and> snd (search_call so g i c d t) = g
   \<and> fst (search_call so (snd (search_call so g i c d t)) i c d t) = fst (search_call so g i c d t)
   \<and> (text_ok i \<and> text_ok c \<and> text_ok d \<and> recipe_labels_plain g
        \<longrightarrow> (\<exists>res. fst (search_call so g i c d t) = Returns res))"
proof (intro conjI impI)
  assume "search so g i c d t = Returns res"
  then show "sorted (map (\<lambda>s. lower (label s)) res)" by (rule search_sorted)
next
  show "snd (search_call so g i c d t) = g" by (simp add: search_call_def query_def)
  show "fst (search_call so (snd (search_call so g i c d t)) i c d t) = fst (search_call so g i c d t)"
    by (simp add: search_call_def query_def)
next
  assume "text_ok i \<and> text_ok c \<and> text_ok d \<and> recipe_labels_plain g"
  then show "\<exists>res. fst (search_call so g i c d t) = Returns res"
    using search_total[of i c d g so t] by (simp add: search_call_def query_def)
qed

lemma example_all:
  "search remdups example_store None None None None =
     Returns [\<lparr>uri = ''r2'', label = ''apple pie'', url = None, rating = None,
               total_time = None, cuisines = [''French''], diets = []\<rparr>,
              \<lparr>uri = ''r3'', label = ''Beef Stew'', url = None, rating = None,
               total_time = Some (Literal (LInt 120)), cuisines = [], diets = []\<rparr>,
              \<lparr>uri = ''r1'', label = ''Lentil Soup'', url = None, rating = None,
               total_time = Some (Literal (LInt 30)), cuisines = [''Indian''],
               diets = [''Vegan'', ''GlutenFree'']\<rparr>]"
  by code_simp

theorem search_ordered_and_repeatable_witness:
  "search remdups example_store None None None None =
     Returns [\<lparr>uri = ''r2'', label = ''apple pie'', url = None, rating = None,
               total_time = None, cuisines = [''French''], diets = []\<rparr>,
              \<lparr>uri = ''r3'', label = ''Beef Stew'', url = None, rating = None,
               total_time = Some (Literal (LInt 120)), cuisines = [], diets = []\<rparr>,
              \<lparr>uri = ''r1'', label = ''Lentil Soup'', url = None, rating = None,
               total_time = Some (Literal (LInt 30)), cuisines = [''Indian''],
               diets = [''Vegan'', ''GlutenFree'']\<rparr>]
   \<and> sorted (map lower [''apple pie'', ''Beef Stew'', ''Lentil Soup''])"
proof -
  from search_ordered_and_repeatable[of remdups example_store None None None None,
      THEN conjunct1, rule_format, OF example_all]
  have "sorted (map lower [''apple pie'', ''Beef Stew'', ''Lentil Soup''])" by simp
  then show ?thesis using example_all by (intro conjI)
qed

end
